theory Spec2Isabelle
  imports Complex_Main
begin

section \<open>Data model (package types)\<close>

text \<open>
  The Go program computes on \<^verbatim>\<open>float64\<close>. Unless a section says otherwise, the embedding
  reads a \<^verbatim>\<open>float64\<close> as a real number: rounding, overflow to infinity and NaN are
  outside of this reading, and so is a division by zero (an infinity or NaN in Go, 0 in
  HOL), which the theorems exclude by their hypotheses wherever the code does not guard
  the denominator itself. The theorems stated on this reading are about what rounding and
  overflow do not change: the lengths of the results, the slot a loop writes, the
  expression the code evaluates for a value, the comparison of values that the code copies
  and never computes. The range of the RSI values does depend on overflow; for it
  \<^verbatim>\<open>CalculateRSI\<close> is modelled a second time, on \<^verbatim>\<open>float64\<close> values that can be
  infinite or NaN. What depends on the rounding of a sum or of a quotient (whether the mean
  of equal levels is that level, whether the standard deviation of equal returns is 0) is
  not stated in this development.

  A \<^verbatim>\<open>time.Time\<close> is an instant on the integer line, \<^verbatim>\<open>Before\<close> is \<open><\<close>. Lengths,
  indices and periods are natural numbers; every theorem about a period assumes
  what its callers guarantee (\<open>period \<ge> 1\<close>), where Go divides by \<^verbatim>\<open>float64(period)\<close>.
  A \<^verbatim>\<open>nil\<close> slice is the empty list.
\<close>

record BTCPrice =
  Timestamp :: int
  Open :: real
  High :: real
  Low :: real
  Close :: real
  Volume :: real

record BTCTimeSeries =
  Symbol :: string
  Data :: "BTCPrice list"

section \<open>Package timeseries\<close>

text \<open>
  \<^verbatim>\<open>Sort\<close> calls the library's \<^verbatim>\<open>sort.Slice\<close> with the comparison
  \<^verbatim>\<open>Data[i].Timestamp.Before(Data[j].Timestamp)\<close>. The library routine is not part of
  the repository. Its contract is that the slice becomes a permutation of itself that is
  ordered by the comparison; the order of elements that compare equal is left open (the
  routine is not stable). The model orders the bars with \<open>sort_key\<close>, which keeps bars
  of equal timestamp in their input order: it stands for the library routine as far as
  the sequence of timestamps goes. No theorem below depends on the order that the model
  gives to bars of equal timestamp.
\<close>

definition Sort :: "BTCTimeSeries \<Rightarrow> BTCTimeSeries" where
  "Sort bts = bts\<lparr>Data := sort_key Timestamp (Data bts)\<rparr>"

definition GetClosePrices :: "BTCTimeSeries \<Rightarrow> real list" where
  "GetClosePrices bts = map Close (Data bts)"

definition GetVolumeData :: "BTCTimeSeries \<Rightarrow> real list" where
  "GetVolumeData bts = map Volume (Data bts)"

definition zeroPrice :: BTCPrice where
  "zeroPrice = \<lparr>Timestamp = 0, Open = 0, High = 0, Low = 0, Close = 0, Volume = 0\<rparr>"

text \<open>\<^verbatim>\<open>GetLatestPrice\<close> sorts the caller's series in place: the sorted series is returned too.\<close>

definition GetLatestPrice :: "BTCTimeSeries \<Rightarrow> BTCPrice \<times> BTCTimeSeries" where
  "GetLatestPrice bts =
     (if length (Data bts) = 0 then (zeroPrice, bts)
      else let bts' = Sort bts in (Data bts' ! (length (Data bts') - 1), bts'))"

section \<open>Package indicators\<close>

subsection \<open>CalculateRSI\<close>

text \<open>\<^verbatim>\<open>changes[i-1] = prices[i] - prices[i-1]\<close> for \<open>i = 1 .. len(prices) - 1\<close>.\<close>

definition price_changes :: "real list \<Rightarrow> real list" where
  "price_changes prices = map (\<lambda>i. prices ! i - prices ! (i - 1)) [1..<length prices]"

text \<open>One round of the seed loop over the first \<open>period\<close> changes.\<close>

definition seed_step :: "real list \<Rightarrow> nat \<Rightarrow> real \<times> real \<Rightarrow> real \<times> real" where
  "seed_step changes i = (\<lambda>(avgGain, avgLoss).
     if changes ! i > 0 then (avgGain + changes ! i, avgLoss)
     else (avgGain, avgLoss + \<bar>changes ! i\<bar>))"

definition smooth :: "nat \<Rightarrow> real list \<Rightarrow> nat \<Rightarrow> real \<times> real \<Rightarrow> real \<times> real" where
  "smooth period changes i = (\<lambda>(avgGain, avgLoss).
     let change = changes ! i;
         gain = (if change > 0 then change else 0);
         loss = (if change > 0 then 0 else \<bar>change\<bar>)
     in ((avgGain * real (period - 1) + gain) / real period,
         (avgLoss * real (period - 1) + loss) / real period))"

definition rsiValue :: "real \<times> real \<Rightarrow> real" where
  "rsiValue = (\<lambda>(avgGain, avgLoss).
     if avgLoss = 0 then 100 else 100 - 100 / (1 + avgGain / avgLoss))"

text \<open>
  One round of the main loop: the state is \<open>(avgGain, avgLoss, rsi)\<close>, the write is
  \<^verbatim>\<open>rsi[i-period] = rsiValue\<close>.
\<close>

definition rsi_step :: "nat \<Rightarrow> real list \<Rightarrow> nat \<Rightarrow> (real \<times> real) \<times> real list \<Rightarrow> (real \<times> real) \<times> real list" where
  "rsi_step period changes i = (\<lambda>(avgs, rsi).
     let avgs' = smooth period changes i avgs
     in (avgs', rsi[i - period := rsiValue avgs']))"

definition seed_avgs :: "nat \<Rightarrow> real list \<Rightarrow> real \<times> real" where
  "seed_avgs period changes =
     (let (avgGain, avgLoss) = fold (seed_step changes) [0..<period] (0, 0)
      in (avgGain / real period, avgLoss / real period))"

definition CalculateRSI :: "BTCTimeSeries \<Rightarrow> nat \<Rightarrow> real list" where
  "CalculateRSI bts period =
     (if length (Data bts) < period + 1 then []
      else let prices = GetClosePrices bts;
               rsi = replicate (length prices - period) 0;
               changes = price_changes prices
           in snd (fold (rsi_step period changes) [period..<length changes]
                     (seed_avgs period changes, rsi)))"

subsection \<open>CalculateRSI on float64 values with infinities and NaN\<close>

text \<open>
  A \<^verbatim>\<open>float64\<close> is a finite number, one of the two infinities, or NaN. An operation on
  finite values gives the exact result while that is within the finite range, the largest
  finite value \<open>MaxFloat64\<close> up to the rounding boundary \<^verbatim>\<open>2^1024 - 2^970\<close>, and an
  infinity from the boundary on. Operations on infinities and NaN follow IEEE 754: the sum
  of opposite infinities, the product of an infinity and zero, the quotient of two
  infinities and \<open>0 / 0\<close> are NaN, and every comparison with NaN is false. The rounding of
  a result inside the finite range and the sign of zero are not modelled.
\<close>

datatype float64 = Fin real | PInf | NInf | NaN

definition MaxFloat64 :: real where
  "MaxFloat64 = 2 ^ 1024 - 2 ^ 971"

definition to_float64 :: "real \<Rightarrow> float64" where
  "to_float64 x =
     (if 2 ^ 1024 - 2 ^ 970 \<le> x then PInf
      else if x \<le> - (2 ^ 1024 - 2 ^ 970) then NInf
      else if MaxFloat64 < x then Fin MaxFloat64
      else if x < - MaxFloat64 then Fin (- MaxFloat64)
      else Fin x)"

fun fadd :: "float64 \<Rightarrow> float64 \<Rightarrow> float64" where
  "fadd (Fin x) (Fin y) = to_float64 (x + y)"
| "fadd NaN _ = NaN"
| "fadd _ NaN = NaN"
| "fadd PInf NInf = NaN"
| "fadd NInf PInf = NaN"
| "fadd PInf _ = PInf"
| "fadd _ PInf = PInf"
| "fadd NInf _ = NInf"
| "fadd _ NInf = NInf"

fun fneg :: "float64 \<Rightarrow> float64" where
  "fneg (Fin x) = Fin (- x)"
| "fneg PInf = NInf"
| "fneg NInf = PInf"
| "fneg NaN = NaN"

definition fsub :: "float64 \<Rightarrow> float64 \<Rightarrow> float64" where
  "fsub a b = fadd a (fneg b)"

fun fabs :: "float64 \<Rightarrow> float64" where
  "fabs (Fin x) = Fin \<bar>x\<bar>"
| "fabs PInf = PInf"
| "fabs NInf = PInf"
| "fabs NaN = NaN"

fun fmul :: "float64 \<Rightarrow> float64 \<Rightarrow> float64" where
  "fmul (Fin x) (Fin y) = to_float64 (x * y)"
| "fmul NaN _ = NaN"
| "fmul _ NaN = NaN"
| "fmul PInf (Fin y) = (if y = 0 then NaN else if 0 < y then PInf else NInf)"
| "fmul NInf (Fin y) = (if y = 0 then NaN else if 0 < y then NInf else PInf)"
| "fmul (Fin x) PInf = (if x = 0 then NaN else if 0 < x then PInf else NInf)"
| "fmul (Fin x) NInf = (if x = 0 then NaN else if 0 < x then NInf else PInf)"
| "fmul PInf PInf = PInf"
| "fmul PInf NInf = NInf"
| "fmul NInf PInf = NInf"
| "fmul NInf NInf = PInf"

fun fdiv :: "float64 \<Rightarrow> float64 \<Rightarrow> float64" where
  "fdiv (Fin x) (Fin y) =
     (if y = 0 then (if x = 0 then NaN else if 0 < x then PInf else NInf)
      else to_float64 (x / y))"
| "fdiv NaN _ = NaN"
| "fdiv _ NaN = NaN"
| "fdiv (Fin x) PInf = Fin 0"
| "fdiv (Fin x) NInf = Fin 0"
| "fdiv PInf (Fin y) = (if 0 \<le> y then PInf else NInf)"
| "fdiv NInf (Fin y) = (if 0 \<le> y then NInf else PInf)"
| "fdiv PInf PInf = NaN"
| "fdiv PInf NInf = NaN"
| "fdiv NInf PInf = NaN"
| "fdiv NInf NInf = NaN"

fun fgt :: "float64 \<Rightarrow> float64 \<Rightarrow> bool" where
  "fgt (Fin x) (Fin y) = (y < x)"
| "fgt NaN _ = False"
| "fgt _ NaN = False"
| "fgt PInf PInf = False"
| "fgt PInf _ = True"
| "fgt NInf _ = False"
| "fgt (Fin x) PInf = False"
| "fgt (Fin x) NInf = True"

text \<open>
  \<^verbatim>\<open>CalculateRSI\<close> once more, line by line as above, on these values. The closes of the
  series are finite.
\<close>

definition price_changes64 :: "float64 list \<Rightarrow> float64 list" where
  "price_changes64 prices = map (\<lambda>i. fsub (prices ! i) (prices ! (i - 1))) [1..<length prices]"

definition seed_step64 :: "float64 list \<Rightarrow> nat \<Rightarrow> float64 \<times> float64 \<Rightarrow> float64 \<times> float64" where
  "seed_step64 changes i = (\<lambda>(avgGain, avgLoss).
     if fgt (changes ! i) (Fin 0) then (fadd avgGain (changes ! i), avgLoss)
     else (avgGain, fadd avgLoss (fabs (changes ! i))))"

definition smooth64 :: "nat \<Rightarrow> float64 list \<Rightarrow> nat \<Rightarrow> float64 \<times> float64 \<Rightarrow> float64 \<times> float64" where
  "smooth64 period changes i = (\<lambda>(avgGain, avgLoss).
     let change = changes ! i;
         gain = (if fgt change (Fin 0) then change else Fin 0);
         loss = (if fgt change (Fin 0) then Fin 0 else fabs change)
     in (fdiv (fadd (fmul avgGain (Fin (real (period - 1)))) gain) (Fin (real period)),
         fdiv (fadd (fmul avgLoss (Fin (real (period - 1)))) loss) (Fin (real period))))"

definition rsiValue64 :: "float64 \<times> float64 \<Rightarrow> float64" where
  "rsiValue64 = (\<lambda>(avgGain, avgLoss).
     if avgLoss = Fin 0 then Fin 100
     else fsub (Fin 100) (fdiv (Fin 100) (fadd (Fin 1) (fdiv avgGain avgLoss))))"

definition rsi_step64 ::
  "nat \<Rightarrow> float64 list \<Rightarrow> nat \<Rightarrow> (float64 \<times> float64) \<times> float64 list
     \<Rightarrow> (float64 \<times> float64) \<times> float64 list" where
  "rsi_step64 period changes i = (\<lambda>(avgs, rsi).
     let avgs' = smooth64 period changes i avgs
     in (avgs', rsi[i - period := rsiValue64 avgs']))"

definition seed_avgs64 :: "nat \<Rightarrow> float64 list \<Rightarrow> float64 \<times> float64" where
  "seed_avgs64 period changes =
     (let (avgGain, avgLoss) = fold (seed_step64 changes) [0..<period] (Fin 0, Fin 0)
      in (fdiv avgGain (Fin (real period)), fdiv avgLoss (Fin (real period))))"

definition CalculateRSI64 :: "BTCTimeSeries \<Rightarrow> nat \<Rightarrow> float64 list" where
  "CalculateRSI64 bts period =
     (if length (Data bts) < period + 1 then []
      else let prices = map Fin (GetClosePrices bts);
               rsi = replicate (length prices - period) (Fin 0);
               changes = price_changes64 prices
           in snd (fold (rsi_step64 period changes) [period..<length changes]
                     (seed_avgs64 period changes, rsi)))"

text \<open>
  The smoothed averages after the main loop has consumed the changes
  \<open>period, \<dots>, m - 1\<close>.
\<close>

definition smoothed_avgs64 :: "nat \<Rightarrow> float64 list \<Rightarrow> nat \<Rightarrow> float64 \<times> float64" where
  "smoothed_avgs64 period changes m =
     fold (smooth64 period changes) [period..<m] (seed_avgs64 period changes)"

text \<open>A finite value between two bounds.\<close>

definition finite_in :: "real \<Rightarrow> real \<Rightarrow> float64 \<Rightarrow> bool" where
  "finite_in lo hi a = (case a of Fin x \<Rightarrow> lo \<le> x \<and> x \<le> hi | _ \<Rightarrow> False)"


subsection \<open>calculateEMA and CalculateMACD\<close>

text \<open>
  \<^verbatim>\<open>ema\<close> is allocated with zeros, \<^verbatim>\<open>ema[0]\<close> receives the mean of the first \<open>period\<close>
  prices and the loop fills the indices from 1 on. The Go index \<^verbatim>\<open>period-1+i\<close> is written
  \<open>period + i - 1\<close>, the same number for \<open>i \<ge> 1\<close>.
\<close>

definition ema_step :: "real list \<Rightarrow> nat \<Rightarrow> real \<Rightarrow> nat \<Rightarrow> real list \<Rightarrow> real list" where
  "ema_step prices period multiplier i ema =
     ema[i := prices ! (period + i - 1) * multiplier + ema ! (i - 1) * (1 - multiplier)]"

definition calculateEMA :: "real list \<Rightarrow> nat \<Rightarrow> real list" where
  "calculateEMA prices period =
     (if length prices < period then []
      else let ema = replicate (length prices - period + 1) 0;
               multiplier = 2 / (real period + 1);
               sum = fold (\<lambda>i sum. sum + prices ! i) [0..<period] 0;
               ema = ema[0 := sum / real period]
           in fold (ema_step prices period multiplier) [1..<length ema] ema)"

record MACDData =
  MACD :: "real list"
  Signal :: "real list"
  Histogram :: "real list"

definition emptyMACD :: MACDData where
  "emptyMACD = \<lparr>MACD = [], Signal = [], Histogram = []\<rparr>"

text \<open>
  \<^verbatim>\<open>fastEMA[startIdx:]\<close> panics when \<^verbatim>\<open>startIdx\<close> is negative or beyond the slice, and
  \<^verbatim>\<open>macdLine[startIdx2+i]\<close> panics when \<^verbatim>\<open>startIdx2\<close> is negative: the result \<open>None\<close>
  is the panic.
\<close>

definition macd_step :: "real list \<Rightarrow> real list \<Rightarrow> nat \<Rightarrow> real list \<Rightarrow> real list" where
  "macd_step alignedFastEMA slowEMA i macdLine =
     (if i < length alignedFastEMA then macdLine[i := alignedFastEMA ! i - slowEMA ! i]
      else macdLine)"

definition histogram_step :: "real list \<Rightarrow> real list \<Rightarrow> nat \<Rightarrow> nat \<Rightarrow> real list \<Rightarrow> real list" where
  "histogram_step macdLine signalLine startIdx2 i histogram =
     (if startIdx2 + i < length macdLine
      then histogram[i := macdLine ! (startIdx2 + i) - signalLine ! i]
      else histogram)"

definition CalculateMACD :: "BTCTimeSeries \<Rightarrow> nat \<Rightarrow> nat \<Rightarrow> nat \<Rightarrow> MACDData option" where
  "CalculateMACD bts fastPeriod slowPeriod signalPeriod =
     (let prices = GetClosePrices bts in
      if length prices < slowPeriod then Some emptyMACD
      else
        let fastEMA = calculateEMA prices fastPeriod;
            slowEMA = calculateEMA prices slowPeriod
        in if slowPeriod < fastPeriod \<or> length fastEMA < slowPeriod - fastPeriod then None
           else
             let startIdx = slowPeriod - fastPeriod;
                 alignedFastEMA = drop startIdx fastEMA;
                 macdLine = fold (macd_step alignedFastEMA slowEMA) [0..<length slowEMA]
                              (replicate (length slowEMA) 0);
                 signalLine = calculateEMA macdLine signalPeriod
             in if length macdLine < length signalLine then None
                else
                  let startIdx2 = length macdLine - length signalLine;
                      histogram = fold (histogram_step macdLine signalLine startIdx2)
                                    [0..<length signalLine] (replicate (length signalLine) 0)
                  in Some \<lparr>MACD = macdLine, Signal = signalLine, Histogram = histogram\<rparr>)"

subsection \<open>CalculateBollingerBands\<close>

record BollingerBandsData =
  Upper :: "real list"
  Middle :: "real list"
  Lower :: "real list"

definition emptyBollinger :: BollingerBandsData where
  "emptyBollinger = \<lparr>Upper = [], Middle = [], Lower = []\<rparr>"

text \<open>
  Every round \<open>i = period - 1, \<dots>, len(prices) - 1\<close> writes the slot \<open>i - period + 1\<close>
  of each band once; the window of round \<open>i\<close> is \<open>i - period + 1, \<dots>, i\<close>.
\<close>

definition window_sma :: "real list \<Rightarrow> nat \<Rightarrow> nat \<Rightarrow> real" where
  "window_sma prices period i =
     fold (\<lambda>j sum. sum + prices ! j) [i + 1 - period..<i + 1] 0 / real period"

definition window_stdDev :: "real list \<Rightarrow> nat \<Rightarrow> nat \<Rightarrow> real" where
  "window_stdDev prices period i =
     (let sma = window_sma prices period i;
          sumSquaredDiff = fold (\<lambda>j s. let diff = prices ! j - sma in s + diff * diff)
                             [i + 1 - period..<i + 1] 0
      in sqrt (sumSquaredDiff / real period))"

definition CalculateBollingerBands :: "BTCTimeSeries \<Rightarrow> nat \<Rightarrow> real \<Rightarrow> BollingerBandsData" where
  "CalculateBollingerBands bts period stdDevFactor =
     (let prices = GetClosePrices bts in
      if length prices < period then emptyBollinger
      else
        let rounds = [period - 1..<length prices]
        in \<lparr>Upper = map (\<lambda>i. window_sma prices period i
                                + stdDevFactor * window_stdDev prices period i) rounds,
            Middle = map (window_sma prices period) rounds,
            Lower = map (\<lambda>i. window_sma prices period i
                                - stdDevFactor * window_stdDev prices period i) rounds\<rparr>)"

section \<open>Package statistics\<close>

text \<open>The fields \<^verbatim>\<open>Min\<close> and \<^verbatim>\<open>Max\<close> of the Go struct are \<open>MinValue\<close> and \<open>MaxValue\<close> here.\<close>

record Statistics =
  Count :: nat
  Mean :: real
  Median :: real
  StdDev :: real
  MinValue :: real
  MaxValue :: real
  Variance :: real
  Skewness :: real
  Kurtosis :: real

definition zeroStatistics :: Statistics where
  "zeroStatistics = \<lparr>Count = 0, Mean = 0, Median = 0, StdDev = 0, MinValue = 0, MaxValue = 0,
     Variance = 0, Skewness = 0, Kurtosis = 0\<rparr>"

definition Calculate :: "real list \<Rightarrow> Statistics" where
  "Calculate values =
     (if length values = 0 then zeroStatistics
      else
        let sortedValues = sort values;
            n = length values;
            min = sortedValues ! 0;
            max = sortedValues ! (n - 1);
            sum = fold (\<lambda>v sum. sum + v) values 0;
            mean = sum / real n;
            median = (if n mod 2 = 0
                      then (sortedValues ! (n div 2 - 1) + sortedValues ! (n div 2)) / 2
                      else sortedValues ! (n div 2));
            sumSquaredDiff = fold (\<lambda>v s. let diff = v - mean in s + diff * diff) values 0;
            variance = sumSquaredDiff / real n;
            stdDev = sqrt variance;
            (sumCubedDiff, sumQuartedDiff) =
               fold (\<lambda>v (c, q). let diff = v - mean;
                                     cubedDiff = diff * diff * diff;
                                     quartedDiff = cubedDiff * diff
                                 in (c + cubedDiff, q + quartedDiff)) values (0, 0);
            skewness = (if stdDev > 0 then (sumCubedDiff / real n) / stdDev ^ 3 else 0);
            kurtosis = (if stdDev > 0 then (sumQuartedDiff / real n) / stdDev ^ 4 - 3 else 0)
        in \<lparr>Count = n, Mean = mean, Median = median, StdDev = stdDev, MinValue = min,
            MaxValue = max, Variance = variance, Skewness = skewness, Kurtosis = kurtosis\<rparr>)"

text \<open>
  Round \<open>i\<close> of \<^verbatim>\<open>CalculateReturns\<close> writes the slot \<open>i - 1\<close> of both slices when the
  previous close is positive and leaves the zero of the allocation otherwise.
\<close>

definition CalculateReturns :: "BTCTimeSeries \<Rightarrow> real list \<times> real list" where
  "CalculateReturns bts =
     (if length (Data bts) < 2 then ([], [])
      else
        let data = Data bts;
            rounds = [1..<length data]
        in (map (\<lambda>i. let prevPrice = Close (data ! (i - 1)); currPrice = Close (data ! i)
                     in if prevPrice > 0 then (currPrice - prevPrice) / prevPrice else 0) rounds,
            map (\<lambda>i. let prevPrice = Close (data ! (i - 1)); currPrice = Close (data ! i)
                     in if prevPrice > 0 then ln (currPrice / prevPrice) else 0) rounds))"

definition CalculateVolatility :: "real list \<Rightarrow> nat \<Rightarrow> real" where
  "CalculateVolatility returns periodsPerYear =
     (if length returns = 0 then 0
      else StdDev (Calculate returns) * sqrt (real periodsPerYear))"

text \<open>One round of the loop of \<^verbatim>\<open>CalculateMaxDrawdown\<close>; the state is \<open>(peak, maxDrawdown)\<close>.\<close>

definition drawdown_step :: "real \<Rightarrow> real \<times> real \<Rightarrow> real \<times> real" where
  "drawdown_step price = (\<lambda>(peak, maxDrawdown).
     let peak = (if price > peak then price else peak);
         drawdown = (peak - price) / peak
     in (peak, if drawdown > maxDrawdown then drawdown else maxDrawdown))"

definition CalculateMaxDrawdown :: "BTCTimeSeries \<Rightarrow> real" where
  "CalculateMaxDrawdown bts =
     (let prices = GetClosePrices bts in
      if length prices = 0 then 0
      else snd (fold drawdown_step prices (prices ! 0, 0)))"

definition CalculateSharpeRatio :: "real list \<Rightarrow> real \<Rightarrow> nat \<Rightarrow> real" where
  "CalculateSharpeRatio returns riskFreeRate periodsPerYear =
     (if length returns = 0 then 0
      else
        let stats = Calculate returns in
        if StdDev stats = 0 then 0
        else
          let annualizedReturn = Mean stats * real periodsPerYear;
              annualizedVolatility = StdDev stats * sqrt (real periodsPerYear)
          in (annualizedReturn - riskFreeRate) / annualizedVolatility)"


text \<open>
  Following the specification's words for the maximum drawdown: the running peak at bar
  \<open>i\<close> is the largest close among the bars \<open>0, \<dots>, i\<close>, the drawdown at bar \<open>i\<close> is
  \<open>(peak - price) / peak\<close>, and the maximum drawdown is the largest of these.
\<close>

definition running_peak :: "real list \<Rightarrow> nat \<Rightarrow> real" where
  "running_peak prices i = Max (set (take (Suc i) prices))"

definition drawdown_at :: "real list \<Rightarrow> nat \<Rightarrow> real" where
  "drawdown_at prices i = (running_peak prices i - prices ! i) / running_peak prices i"

definition spec_maxDrawdown :: "real list \<Rightarrow> real" where
  "spec_maxDrawdown prices = Max (drawdown_at prices ` {..<length prices})"

section \<open>Package patterns\<close>

record SupportResistanceData =
  SupportLevels :: "real list"
  ResistanceLevels :: "real list"

definition emptySupportResistance :: SupportResistanceData where
  "emptySupportResistance = \<lparr>SupportLevels = [], ResistanceLevels = []\<rparr>"

definition cluster_mean :: "real list \<Rightarrow> real" where
  "cluster_mean currentCluster =
     fold (\<lambda>level sum. sum + level) currentCluster 0 / real (length currentCluster)"

text \<open>
  The loop of \<^verbatim>\<open>clusterLevels\<close> from index 1 on: \<open>prev\<close> is \<^verbatim>\<open>levels[i-1]\<close>, the list
  argument holds \<^verbatim>\<open>levels[i:]\<close>. After the loop the last cluster is closed.
\<close>

fun cluster_loop :: "real \<Rightarrow> real \<Rightarrow> real list \<Rightarrow> real list \<Rightarrow> real list \<Rightarrow> real list" where
  "cluster_loop tolerance prev [] currentCluster clustered =
     (if length currentCluster > 0 then clustered @ [cluster_mean currentCluster] else clustered)"
| "cluster_loop tolerance prev (level # levels) currentCluster clustered =
     (if \<bar>level - prev\<bar> / prev \<le> tolerance
      then cluster_loop tolerance level levels (currentCluster @ [level]) clustered
      else cluster_loop tolerance level levels [level] (clustered @ [cluster_mean currentCluster]))"

definition clusterLevels :: "real list \<Rightarrow> real \<Rightarrow> real list" where
  "clusterLevels levels tolerance =
     (if length levels = 0 then levels
      else let levels = sort levels
           in cluster_loop tolerance (levels ! 0) (tl levels) [levels ! 0] [])"

text \<open>
  The inner loop of \<^verbatim>\<open>FindSupportResistanceLevels\<close> over the window around bar \<open>i\<close>;
  the state is \<open>(isSupport, isResistance)\<close>.
\<close>

definition extremum_step :: "BTCPrice list \<Rightarrow> nat \<Rightarrow> nat \<Rightarrow> bool \<times> bool \<Rightarrow> bool \<times> bool" where
  "extremum_step data i j = (\<lambda>(isSupport, isResistance).
     if j \<noteq> i
     then (if Low (data ! j) < Low (data ! i) then False else isSupport,
           if High (data ! j) > High (data ! i) then False else isResistance)
     else (isSupport, isResistance))"

definition candidate_step :: "BTCPrice list \<Rightarrow> nat \<Rightarrow> nat \<Rightarrow> real list \<times> real list \<Rightarrow> real list \<times> real list" where
  "candidate_step data lookbackPeriod i = (\<lambda>(supportLevels, resistanceLevels).
     let currentPrice = data ! i;
         (isSupport, isResistance) =
            fold (extremum_step data i) [i - lookbackPeriod..<i + lookbackPeriod + 1] (True, True)
     in (if isSupport then supportLevels @ [Low currentPrice] else supportLevels,
         if isResistance then resistanceLevels @ [High currentPrice] else resistanceLevels))"

text \<open>The series is sorted in place: the function returns it next to the levels.\<close>

definition FindSupportResistanceLevels ::
    "BTCTimeSeries \<Rightarrow> nat \<Rightarrow> real \<Rightarrow> SupportResistanceData \<times> BTCTimeSeries" where
  "FindSupportResistanceLevels bts lookbackPeriod tolerance =
     (if length (Data bts) < lookbackPeriod * 2 then (emptySupportResistance, bts)
      else
        let bts = Sort bts;
            (supportLevels, resistanceLevels) =
               fold (candidate_step (Data bts) lookbackPeriod)
                 [lookbackPeriod..<length (Data bts) - lookbackPeriod] ([], [])
        in (\<lparr>SupportLevels = clusterLevels supportLevels tolerance,
             ResistanceLevels = clusterLevels resistanceLevels tolerance\<rparr>, bts))"

text \<open>\<^verbatim>\<open>DetectTrend\<close> is called with the period 30; the model is for \<open>period \<ge> 1\<close>.\<close>

definition DetectTrend :: "BTCTimeSeries \<Rightarrow> nat \<Rightarrow> string" where
  "DetectTrend bts period =
     (if length (Data bts) < period then ''insufficient_data''
      else
        let prices = GetClosePrices bts;
            startPrice = prices ! (length prices - period);
            endPrice = prices ! (length prices - 1);
            change = (endPrice - startPrice) / startPrice
        in if change > 0.05 then ''uptrend''
           else if change < - 0.05 then ''downtrend''
           else ''sideways'')"

definition FindPivotPoints :: "BTCTimeSeries \<Rightarrow> (string \<rightharpoonup> real)" where
  "FindPivotPoints bts =
     (let pivots = Map.empty in
      if length (Data bts) = 0 then pivots
      else
        let latest = Data bts ! (length (Data bts) - 1);
            high = High latest;
            low = Low latest;
            close = Close latest;
            pivot = (high + low + close) / 3;
            pivots = pivots(''pivot'' \<mapsto> pivot);
            pivots = pivots(''r1'' \<mapsto> 2 * pivot - low);
            pivots = pivots(''s1'' \<mapsto> 2 * pivot - high);
            pivots = pivots(''r2'' \<mapsto> pivot + (high - low));
            pivots = pivots(''s2'' \<mapsto> pivot - (high - low));
            pivots = pivots(''r3'' \<mapsto> high + 2 * (pivot - low));
            pivots = pivots(''s3'' \<mapsto> low - 2 * (high - pivot))
        in pivots)"

section \<open>Package analyzer\<close>

text \<open>The field \<^verbatim>\<open>MACD\<close> of the Go struct \<^verbatim>\<open>BTCAnalytics\<close> is \<open>MACDResult\<close> here.\<close>

record BTCAnalytics =
  PriceStats :: Statistics
  VolumeStats :: Statistics
  Volatility :: real
  SharpeRatio :: real
  MaxDrawdown :: real
  Returns :: "real list"
  LogReturns :: "real list"
  RSI :: "real list"
  MACDResult :: MACDData
  BollingerBands :: BollingerBandsData
  SupportResistance :: SupportResistanceData

definition zeroAnalytics :: BTCAnalytics where
  "zeroAnalytics = \<lparr>PriceStats = zeroStatistics, VolumeStats = zeroStatistics, Volatility = 0,
     SharpeRatio = 0, MaxDrawdown = 0, Returns = [], LogReturns = [], RSI = [],
     MACDResult = emptyMACD, BollingerBands = emptyBollinger,
     SupportResistance = emptySupportResistance\<rparr>"

text \<open>
  \<^verbatim>\<open>PerformComprehensiveAnalysis\<close> returns the aggregate and leaves the caller's series
  as \<^verbatim>\<open>FindSupportResistanceLevels\<close> sorted it; \<open>None\<close> is a panic of \<^verbatim>\<open>CalculateMACD\<close>.
\<close>

definition PerformComprehensiveAnalysis :: "BTCTimeSeries \<Rightarrow> (BTCAnalytics \<times> BTCTimeSeries) option" where
  "PerformComprehensiveAnalysis bts =
     (let analytics = zeroAnalytics in
      if length (Data bts) < 2 then Some (analytics, bts)
      else
        let prices = GetClosePrices bts;
            volumes = GetVolumeData bts;
            analytics = analytics\<lparr>PriceStats := Calculate prices\<rparr>;
            analytics = analytics\<lparr>VolumeStats := Calculate volumes\<rparr>;
            (returns, logReturns) = CalculateReturns bts;
            analytics = analytics\<lparr>Returns := returns\<rparr>;
            analytics = analytics\<lparr>LogReturns := logReturns\<rparr>;
            analytics = (if length returns > 0
                         then analytics\<lparr>Volatility := CalculateVolatility returns 365,
                                        SharpeRatio := CalculateSharpeRatio returns 0 365,
                                        MaxDrawdown := CalculateMaxDrawdown bts\<rparr>
                         else analytics);
            analytics = (if length (Data bts) \<ge> 14
                         then analytics\<lparr>RSI := CalculateRSI bts 14\<rparr>
                         else analytics)
        in case (if length (Data bts) \<ge> 26 then CalculateMACD bts 12 26 9
                 else Some (MACDResult analytics)) of
             None \<Rightarrow> None
           | Some macd \<Rightarrow>
               let analytics = analytics\<lparr>MACDResult := macd\<rparr>;
                   analytics = (if length (Data bts) \<ge> 20
                                then analytics\<lparr>BollingerBands := CalculateBollingerBands bts 20 2\<rparr>
                                else analytics);
                   (levels, bts) = (if length (Data bts) \<ge> 10
                                    then FindSupportResistanceLevels bts 5 0.02
                                    else (SupportResistance analytics, bts))
               in Some (analytics\<lparr>SupportResistance := levels\<rparr>, bts))"

text \<open>
  \<^verbatim>\<open>GetTradingSignals\<close> fills a \<^verbatim>\<open>map[string]string\<close> in five blocks, one after the
  other; each block is a function from the map before it to the map after it.
\<close>

definition rsi_signals :: "BTCAnalytics \<Rightarrow> (string \<rightharpoonup> string) \<Rightarrow> (string \<rightharpoonup> string)" where
  "rsi_signals analytics signals =
     (if length (RSI analytics) > 0
      then let latestRSI = RSI analytics ! (length (RSI analytics) - 1)
           in if latestRSI > 70 then signals(''RSI'' \<mapsto> ''SELL - Overbought'')
              else if latestRSI < 30 then signals(''RSI'' \<mapsto> ''BUY - Oversold'')
              else signals(''RSI'' \<mapsto> ''HOLD - Neutral'')
      else signals)"

definition macd_signals :: "BTCAnalytics \<Rightarrow> (string \<rightharpoonup> string) \<Rightarrow> (string \<rightharpoonup> string)" where
  "macd_signals analytics signals =
     (let macd = MACD (MACDResult analytics);
          signal = Signal (MACDResult analytics)
      in if length macd > 1 \<and> length signal > 1
         then let latestMACD = macd ! (length macd - 1);
                  prevMACD = macd ! (length macd - 2);
                  latestSignal = signal ! (length signal - 1);
                  prevSignal = signal ! (length signal - 2)
              in if prevMACD \<le> prevSignal \<and> latestMACD > latestSignal
                 then signals(''MACD'' \<mapsto> ''BUY - Bullish crossover'')
                 else if prevMACD \<ge> prevSignal \<and> latestMACD < latestSignal
                 then signals(''MACD'' \<mapsto> ''SELL - Bearish crossover'')
                 else if latestMACD > latestSignal
                 then signals(''MACD'' \<mapsto> ''HOLD - Bullish'')
                 else signals(''MACD'' \<mapsto> ''HOLD - Bearish'')
         else signals)"

text \<open>
  The Bollinger block reads \<^verbatim>\<open>Lower[latest]\<close> at the last index of \<^verbatim>\<open>Upper\<close>: \<open>None\<close>
  is the panic on a lower band shorter than the upper one. \<^verbatim>\<open>GetLatestPrice\<close> sorts
  the caller's series, which the block hands on.
\<close>

definition bollinger_signals ::
    "BTCTimeSeries \<Rightarrow> BTCAnalytics \<Rightarrow> (string \<rightharpoonup> string)
       \<Rightarrow> ((string \<rightharpoonup> string) \<times> BTCTimeSeries) option" where
  "bollinger_signals bts analytics signals =
     (let bands = BollingerBands analytics
      in if length (Upper bands) > 0
         then let (latestBar, bts) = GetLatestPrice bts;
                  latestPrice = Close latestBar;
                  latest = length (Upper bands) - 1
              in if length (Lower bands) \<le> latest then None
                 else let upper = Upper bands ! latest;
                          lower = Lower bands ! latest
                      in if latestPrice > upper
                         then Some (signals(''Bollinger'' \<mapsto> ''SELL - Price above upper band''), bts)
                         else if latestPrice < lower
                         then Some (signals(''Bollinger'' \<mapsto> ''BUY - Price below lower band''), bts)
                         else Some (signals(''Bollinger'' \<mapsto> ''HOLD - Price in normal range''), bts)
         else Some (signals, bts))"

definition trend_signals :: "BTCTimeSeries \<Rightarrow> (string \<rightharpoonup> string) \<Rightarrow> (string \<rightharpoonup> string)" where
  "trend_signals bts signals =
     (let trend = DetectTrend bts 30
      in if trend = ''uptrend'' then signals(''Trend'' \<mapsto> ''BUY - Uptrend detected'')
         else if trend = ''downtrend'' then signals(''Trend'' \<mapsto> ''SELL - Downtrend detected'')
         else signals(''Trend'' \<mapsto> ''HOLD - Sideways movement''))"

text \<open>
  The two loops over the levels stop at the first level within 2 percent of the latest
  price.
\<close>

fun near_level :: "real \<Rightarrow> real list \<Rightarrow> bool" where
  "near_level latestPrice [] = False"
| "near_level latestPrice (level # levels) =
     (if \<bar>latestPrice - level\<bar> / level < 0.02 then True else near_level latestPrice levels)"

definition level_signals ::
    "BTCTimeSeries \<Rightarrow> BTCAnalytics \<Rightarrow> (string \<rightharpoonup> string)
       \<Rightarrow> (string \<rightharpoonup> string) \<times> BTCTimeSeries" where
  "level_signals bts analytics signals =
     (let levels = SupportResistance analytics
      in if length (SupportLevels levels) > 0 \<or> length (ResistanceLevels levels) > 0
         then let (latestBar, bts) = GetLatestPrice bts;
                  latestPrice = Close latestBar;
                  signals = (if near_level latestPrice (SupportLevels levels)
                             then signals(''Support'' \<mapsto> ''BUY - Near support level'')
                             else signals);
                  signals = (if near_level latestPrice (ResistanceLevels levels)
                             then signals(''Resistance'' \<mapsto> ''SELL - Near resistance level'')
                             else signals)
              in (signals, bts)
         else (signals, bts))"

definition GetTradingSignals ::
    "BTCTimeSeries \<Rightarrow> BTCAnalytics \<Rightarrow> ((string \<rightharpoonup> string) \<times> BTCTimeSeries) option" where
  "GetTradingSignals bts analytics =
     (let signals = Map.empty;
          signals = rsi_signals analytics signals;
          signals = macd_signals analytics signals
      in case bollinger_signals bts analytics signals of
           None \<Rightarrow> None
         | Some (signals, bts) \<Rightarrow>
             let signals = trend_signals bts signals
             in Some (level_signals bts analytics signals))"

section \<open>Concrete series\<close>

text \<open>
  Inputs on which the theorems below are evaluated: \<open>bar t c\<close> is a flat bar at time
  \<open>t\<close> with every price equal to \<open>c\<close>, \<open>ohlc t h l c\<close> a bar with the given high, low
  and close, \<open>series\<close> wraps a list of bars, and \<open>rising n\<close> has \<open>n\<close> flat bars with
  the closes \<open>100, 101, \<dots>\<close> at the times \<open>0, 1, \<dots>\<close>.
\<close>

definition bar :: "int \<Rightarrow> real \<Rightarrow> BTCPrice" where
  "bar t c = \<lparr>Timestamp = t, Open = c, High = c, Low = c, Close = c, Volume = 0\<rparr>"

definition ohlc :: "int \<Rightarrow> real \<Rightarrow> real \<Rightarrow> real \<Rightarrow> BTCPrice" where
  "ohlc t h l c = \<lparr>Timestamp = t, Open = c, High = h, Low = l, Close = c, Volume = 0\<rparr>"

definition series :: "BTCPrice list \<Rightarrow> BTCTimeSeries" where
  "series bars = \<lparr>Symbol = ''BTC'', Data = bars\<rparr>"

definition rising :: "nat \<Rightarrow> BTCTimeSeries" where
  "rising n = series (map (\<lambda>i. bar (int i) (100 + real i)) [0..<n])"

section \<open>Properties of CalculateRSI\<close>

lemma rsi_loop_length:
  "length (snd (fold (rsi_step p c) xs s)) = length (snd s)"
  by (induction xs arbitrary: s) (auto simp: rsi_step_def Let_def split: prod.splits)

lemma rsi_loop_untouched:
  "\<forall>i\<in>set xs. i - p \<noteq> k \<Longrightarrow> snd (fold (rsi_step p c) xs s) ! k = snd s ! k"
  by (induction xs arbitrary: s) (auto simp: rsi_step_def Let_def split: prod.splits)

lemma length_price_changes: "length (price_changes ps) = length ps - 1"
  by (simp add: price_changes_def)

lemma length_CalculateRSI:
  "length (CalculateRSI bts period)
     = (if length (Data bts) < period + 1 then 0 else length (Data bts) - period)"
  by (simp add: CalculateRSI_def Let_def rsi_loop_length GetClosePrices_def)

lemma CalculateRSI_last_zero:
  assumes "CalculateRSI bts period \<noteq> []"
  shows "last (CalculateRSI bts period) = 0"
proof -
  let ?n = "length (Data bts)"
  have n: "period + 1 \<le> ?n"
    using assms by (auto simp: CalculateRSI_def split: if_splits)
  have len: "length (CalculateRSI bts period) = ?n - period"
    using n by (simp add: length_CalculateRSI)
  have "last (CalculateRSI bts period) = CalculateRSI bts period ! (?n - period - 1)"
    using assms len by (simp add: last_conv_nth)
  also have "\<dots> = replicate (?n - period) (0::real) ! (?n - period - 1)"
  proof -
    have "\<forall>i\<in>set [period..<?n - 1]. i - period \<noteq> ?n - period - 1"
      using n by auto
    then show ?thesis
      using n unfolding CalculateRSI_def Let_def
      by (simp add: GetClosePrices_def length_price_changes rsi_loop_untouched
            del: replicate.simps)
  qed
  also have "\<dots> = 0" using n by simp
  finally show ?thesis .
qed

lemma length_rising: "length (Data (rising n)) = n"
  by (simp add: rising_def series_def)

text \<open>
  Claim C1 (output length of \<^verbatim>\<open>CalculateRSI\<close>). The specification gives
  \<open>len(prices) - period - 1\<close> values, one per price change beyond the seed window. The
  loop indeed writes that many, but the slice is allocated with \<open>len(prices) - period\<close>
  slots (lemma \<open>length_CalculateRSI\<close>): on two bars and period 1 there is no change
  beyond the seed window, the specification gives no value, and the function returns the
  one slot of the allocation, still zero.
\<close>

theorem CalculateRSI_two_bars: "CalculateRSI (series [bar 1 100, bar 2 101]) 1 = [0]"
  by (simp add: CalculateRSI_def series_def GetClosePrices_def price_changes_def)

section \<open>Properties of CalculateRSI on float64 values\<close>

lemma MaxFloat64_100: "100 \<le> MaxFloat64"
  by (simp add: MaxFloat64_def)

lemma MaxFloat64_boundary: "MaxFloat64 < 2 ^ 1024 - 2 ^ 970"
  by (simp add: MaxFloat64_def)

lemma finite_in_Fin: "finite_in lo hi (Fin x) = (lo \<le> x \<and> x \<le> hi)"
  by (simp add: finite_in_def)

lemma finite_inD: "finite_in lo hi a \<Longrightarrow> \<exists>x. a = Fin x \<and> lo \<le> x \<and> x \<le> hi"
  by (cases a) (simp_all add: finite_in_def)

lemma finite_in_mono: "finite_in lo hi a \<Longrightarrow> lo' \<le> lo \<Longrightarrow> hi \<le> hi' \<Longrightarrow> finite_in lo' hi' a"
  by (cases a) (simp_all add: finite_in_def)

lemma to_float64_finite:
  "- MaxFloat64 \<le> x \<Longrightarrow> x \<le> MaxFloat64 \<Longrightarrow> to_float64 x = Fin x"
  using MaxFloat64_boundary by (simp add: to_float64_def)

lemma to_float64_PInf: "2 ^ 1024 - 2 ^ 970 \<le> x \<Longrightarrow> to_float64 x = PInf"
  by (simp add: to_float64_def)

lemma to_float64_ge1:
  assumes "1 \<le> x"
  shows "to_float64 x = PInf \<or> (\<exists>z. to_float64 x = Fin z \<and> 1 \<le> z)"
proof -
  have "1 \<le> MaxFloat64" using MaxFloat64_100 by simp
  moreover have "0 < (2::real) ^ 1024 - 2 ^ 970" using MaxFloat64_boundary MaxFloat64_100 by simp
  ultimately show ?thesis using assms by (simp add: to_float64_def)
qed

lemma to_float64_nonneg:
  assumes "0 \<le> x"
  shows "to_float64 x = PInf \<or> (\<exists>z. to_float64 x = Fin z \<and> 0 \<le> z)"
proof -
  have "0 \<le> MaxFloat64" using MaxFloat64_100 by simp
  moreover have "0 < (2::real) ^ 1024 - 2 ^ 970" using MaxFloat64_boundary MaxFloat64_100 by simp
  ultimately show ?thesis using assms by (simp add: to_float64_def)
qed

lemma rsiValue64_range:
  assumes "0 \<le> g" "0 \<le> l"
  shows "finite_in 0 100 (rsiValue64 (Fin g, Fin l))"
proof (cases "l = 0")
  case True
  then show ?thesis by (simp add: rsiValue64_def finite_in_Fin)
next
  case False
  then have l: "0 < l" using assms by simp
  have rs: "fdiv (Fin g) (Fin l) = to_float64 (g / l)" using l by simp
  have q: "0 \<le> g / l" using assms l by simp
  have one: "fadd (Fin 1) (fdiv (Fin g) (Fin l)) = PInf \<or>
      (\<exists>z. fadd (Fin 1) (fdiv (Fin g) (Fin l)) = Fin z \<and> 1 \<le> z)"
  proof -
    from to_float64_nonneg[OF q] show ?thesis
    proof
      assume "to_float64 (g / l) = PInf"
      then show ?thesis unfolding rs by simp
    next
      assume "\<exists>y. to_float64 (g / l) = Fin y \<and> 0 \<le> y"
      then obtain y where y: "to_float64 (g / l) = Fin y" "0 \<le> y" by blast
      have "1 \<le> 1 + y" using y by simp
      from to_float64_ge1[OF this] show ?thesis unfolding rs y(1) by simp
    qed
  qed
  have quot: "\<exists>w. fdiv (Fin 100) (fadd (Fin 1) (fdiv (Fin g) (Fin l))) = Fin w \<and> 0 \<le> w \<and> w \<le> 100"
  proof -
    from one show ?thesis
    proof
      assume "fadd (Fin 1) (fdiv (Fin g) (Fin l)) = PInf"
      then show ?thesis by simp
    next
      assume "\<exists>z. fadd (Fin 1) (fdiv (Fin g) (Fin l)) = Fin z \<and> 1 \<le> z"
      then obtain z where z: "fadd (Fin 1) (fdiv (Fin g) (Fin l)) = Fin z" "1 \<le> z" by blast
      have "100 / z \<le> 100 / 1" using z by (intro divide_left_mono) auto
      then have le: "100 / z \<le> 100" by simp
      have ge: "0 \<le> 100 / z" using z by simp
      have "to_float64 (100 / z) = Fin (100 / z)"
        using le ge MaxFloat64_100 by (intro to_float64_finite) linarith+
      then show ?thesis using z le ge by simp
    qed
  qed
  then obtain w where w: "fdiv (Fin 100) (fadd (Fin 1) (fdiv (Fin g) (Fin l))) = Fin w"
      "0 \<le> w" "w \<le> 100" by blast
  have "to_float64 (100 + - w) = Fin (100 + - w)"
    using w MaxFloat64_100 by (intro to_float64_finite) linarith+
  then have "rsiValue64 (Fin g, Fin l) = Fin (100 + - w)"
    using False w by (simp add: rsiValue64_def fsub_def)
  then show ?thesis using w by (simp add: finite_in_Fin)
qed

lemma rsiValue64_zero_loss: "rsiValue64 (g, Fin 0) = Fin 100"
  by (simp add: rsiValue64_def)

lemma seed_step64_bound:
  assumes c: "finite_in (- B) B (c ! i)"
    and g: "finite_in 0 X (fst s)" and l: "finite_in 0 X (snd s)"
    and X: "X + B \<le> MaxFloat64"
  shows "finite_in 0 (X + B) (fst (seed_step64 c i s)) \<and>
         finite_in 0 (X + B) (snd (seed_step64 c i s))"
proof -
  obtain d where d: "c ! i = Fin d" "- B \<le> d" "d \<le> B" using finite_inD[OF c] by blast
  obtain g' where g': "fst s = Fin g'" "0 \<le> g'" "g' \<le> X" using finite_inD[OF g] by blast
  obtain l' where l': "snd s = Fin l'" "0 \<le> l'" "l' \<le> X" using finite_inD[OF l] by blast
  have s: "s = (Fin g', Fin l')" using g' l' by (cases s) simp
  show ?thesis
  proof (cases "0 < d")
    case True
    have "to_float64 (g' + d) = Fin (g' + d)"
      using True g' d X by (intro to_float64_finite) linarith+
    then show ?thesis using True g' l' d(2,3) by (simp add: s seed_step64_def d(1) finite_in_Fin)
  next
    case False
    have "to_float64 (l' + \<bar>d\<bar>) = Fin (l' + \<bar>d\<bar>)"
      using False l' d X by (intro to_float64_finite) linarith+
    then show ?thesis using False g' l' d(2,3) by (simp add: s seed_step64_def d(1) finite_in_Fin)
  qed
qed

lemma seed_loop64_bound:
  assumes "\<forall>i\<in>set xs. finite_in (- B) B (c ! i)"
    and "finite_in 0 X (fst s)" and "finite_in 0 X (snd s)"
    and "X + real (length xs) * B \<le> MaxFloat64" and "0 \<le> B"
  shows "finite_in 0 (X + real (length xs) * B) (fst (fold (seed_step64 c) xs s)) \<and>
         finite_in 0 (X + real (length xs) * B) (snd (fold (seed_step64 c) xs s))"
  using assms
proof (induction xs arbitrary: s X)
  case Nil
  then show ?case by simp
next
  case (Cons i xs)
  have m: "0 \<le> real (length xs) * B" using Cons.prems(5) by simp
  have XB: "X + B \<le> MaxFloat64"
    using Cons.prems(4) m by (simp add: algebra_simps)
  have ci: "finite_in (- B) B (c ! i)" using Cons.prems(1) by simp
  have step: "finite_in 0 (X + B) (fst (seed_step64 c i s)) \<and>
         finite_in 0 (X + B) (snd (seed_step64 c i s))"
    using ci Cons.prems(2,3) XB by (rule seed_step64_bound)
  have le: "(X + B) + real (length xs) * B \<le> MaxFloat64"
    using Cons.prems(4) by (simp add: algebra_simps)
  have rest: "\<forall>i\<in>set xs. finite_in (- B) B (c ! i)" using Cons.prems(1) by simp
  have "finite_in 0 ((X + B) + real (length xs) * B) (fst (fold (seed_step64 c) xs (seed_step64 c i s))) \<and>
        finite_in 0 ((X + B) + real (length xs) * B) (snd (fold (seed_step64 c) xs (seed_step64 c i s)))"
    using rest step le Cons.prems(5) by (intro Cons.IH) simp_all
  moreover have "(X + B) + real (length xs) * B = X + real (length (i # xs)) * B"
    by (simp add: algebra_simps)
  ultimately show ?case by simp
qed

lemma seed_avgs64_bound:
  assumes c: "\<forall>i<p. finite_in (- B) B (c ! i)"
    and p: "1 \<le> p" and B: "0 \<le> B" and pB: "real p * B \<le> MaxFloat64"
  shows "finite_in 0 B (fst (seed_avgs64 p c)) \<and> finite_in 0 B (snd (seed_avgs64 p c))"
proof -
  define t where "t = fold (seed_step64 c) [0..<p] (Fin 0, Fin 0)"
  have "finite_in 0 (0 + real (length [0..<p]) * B) (fst t) \<and>
        finite_in 0 (0 + real (length [0..<p]) * B) (snd t)"
    unfolding t_def using c B pB by (intro seed_loop64_bound) (simp_all add: finite_in_Fin)
  then have t: "finite_in 0 (real p * B) (fst t)" "finite_in 0 (real p * B) (snd t)" by simp_all
  obtain g where g: "fst t = Fin g" "0 \<le> g" "g \<le> real p * B" using finite_inD[OF t(1)] by blast
  obtain l where l: "snd t = Fin l" "0 \<le> l" "l \<le> real p * B" using finite_inD[OF t(2)] by blast
  have tt: "t = (Fin g, Fin l)" using g l by (cases t) simp
  have p0: "0 < real p" using p by simp
  have BM: "B \<le> MaxFloat64"
  proof -
    have "B * 1 \<le> B * real p" using p B by (intro mult_left_mono) simp_all
    then show ?thesis using pB by (simp add: mult.commute)
  qed
  have gq: "0 \<le> g / real p" "g / real p \<le> B"
    using g p0 by (simp_all add: pos_divide_le_eq mult.commute)
  have lq: "0 \<le> l / real p" "l / real p \<le> B"
    using l p0 by (simp_all add: pos_divide_le_eq mult.commute)
  have "to_float64 (g / real p) = Fin (g / real p)"
    using gq BM by (intro to_float64_finite) linarith+
  moreover have "to_float64 (l / real p) = Fin (l / real p)"
    using lq BM by (intro to_float64_finite) linarith+
  ultimately have "seed_avgs64 p c = (Fin (g / real p), Fin (l / real p))"
    using p0 unfolding seed_avgs64_def t_def[symmetric] by (simp add: tt)
  then show ?thesis using gq lq by (simp add: finite_in_Fin)
qed

lemma smooth_one64:
  assumes a: "0 \<le> a" "a \<le> B" and x: "0 \<le> x" "x \<le> B"
    and p: "1 \<le> p" and pB: "real p * B \<le> MaxFloat64"
  shows "\<exists>y. fdiv (fadd (fmul (Fin a) (Fin (real (p - 1)))) (Fin x)) (Fin (real p)) = Fin y
           \<and> 0 \<le> y \<and> y \<le> B"
proof -
  have p0: "0 < real p" using p by simp
  have pm: "real (p - 1) = real p - 1" using p by (simp add: of_nat_diff)
  have B: "0 \<le> B" using a by linarith
  have m0: "0 \<le> a * real (p - 1)" using a by simp
  have m1: "a * real (p - 1) \<le> B * real (p - 1)" using a by (intro mult_right_mono) simp_all
  have m2: "B * real (p - 1) + B = real p * B" unfolding pm by (simp add: algebra_simps)
  have mM: "a * real (p - 1) \<le> MaxFloat64" using m1 m2 B pB by linarith
  have mul: "fmul (Fin a) (Fin (real (p - 1))) = Fin (a * real (p - 1))"
    using m0 mM by (simp add: to_float64_finite)
  have s0: "0 \<le> a * real (p - 1) + x" using m0 x by simp
  have s1: "a * real (p - 1) + x \<le> real p * B" using m1 m2 x by linarith
  have add: "fadd (Fin (a * real (p - 1))) (Fin x) = Fin (a * real (p - 1) + x)"
    using s0 s1 pB by (simp add: to_float64_finite)
  have q0: "0 \<le> (a * real (p - 1) + x) / real p" using s0 p0 by simp
  have q1: "(a * real (p - 1) + x) / real p \<le> B"
    using s1 p0 by (simp add: pos_divide_le_eq mult.commute)
  have BM: "B \<le> MaxFloat64"
  proof -
    have "B * 1 \<le> B * real p" using p B by (intro mult_left_mono) simp_all
    then show ?thesis using pB by (simp add: mult.commute)
  qed
  have "to_float64 ((a * real (p - 1) + x) / real p) = Fin ((a * real (p - 1) + x) / real p)"
    using q0 q1 BM by (intro to_float64_finite) linarith+
  then have div: "fdiv (Fin (a * real (p - 1) + x)) (Fin (real p))
      = Fin ((a * real (p - 1) + x) / real p)"
    using p0 by simp
  show ?thesis unfolding mul add div using q0 q1 by blast
qed

lemma smooth64_bound:
  assumes c: "finite_in (- B) B (c ! i)"
    and g: "finite_in 0 B (fst s)" and l: "finite_in 0 B (snd s)"
    and p: "1 \<le> p" and pB: "real p * B \<le> MaxFloat64"
  shows "finite_in 0 B (fst (smooth64 p c i s)) \<and> finite_in 0 B (snd (smooth64 p c i s))"
proof -
  obtain d where d: "c ! i = Fin d" "- B \<le> d" "d \<le> B" using finite_inD[OF c] by blast
  obtain g' where g': "fst s = Fin g'" "0 \<le> g'" "g' \<le> B" using finite_inD[OF g] by blast
  obtain l' where l': "snd s = Fin l'" "0 \<le> l'" "l' \<le> B" using finite_inD[OF l] by blast
  have s: "s = (Fin g', Fin l')" using g' l' by (cases s) simp
  have B: "0 \<le> B" using g' by linarith
  define gain where "gain = (if 0 < d then d else 0)"
  define loss where "loss = (if 0 < d then 0 else \<bar>d\<bar>)"
  have gain: "0 \<le> gain" "gain \<le> B" using d B by (auto simp: gain_def)
  have loss: "0 \<le> loss" "loss \<le> B" using d B by (auto simp: loss_def)
  obtain y where y: "fdiv (fadd (fmul (Fin g') (Fin (real (p - 1)))) (Fin gain)) (Fin (real p)) = Fin y"
      "0 \<le> y" "y \<le> B"
    using smooth_one64[OF g'(2,3) gain p pB] by blast
  obtain z where z: "fdiv (fadd (fmul (Fin l') (Fin (real (p - 1)))) (Fin loss)) (Fin (real p)) = Fin z"
      "0 \<le> z" "z \<le> B"
    using smooth_one64[OF l'(2,3) loss p pB] by blast
  have "smooth64 p c i s = (Fin y, Fin z)"
    unfolding s smooth64_def Let_def d using y(1) z(1)
    by (cases "0 < d") (simp_all add: gain_def loss_def)
  then show ?thesis using y z by (simp add: finite_in_Fin)
qed


lemma rsi_loop64_length:
  "length (snd (fold (rsi_step64 p c) xs s)) = length (snd s)"
  by (induction xs arbitrary: s) (auto simp: rsi_step64_def Let_def split: prod.splits)

lemma rsi_loop64_fst:
  "fst (fold (rsi_step64 p c) xs s) = fold (smooth64 p c) xs (fst s)"
  by (induction xs arbitrary: s) (auto simp: rsi_step64_def Let_def split: prod.splits)

lemma snd_rsi_step64:
  "snd (rsi_step64 p c i s) = (snd s)[i - p := rsiValue64 (smooth64 p c i (fst s))]"
  by (cases s) (simp add: rsi_step64_def Let_def)

lemma rsi_loop64_Suc:
  assumes "p \<le> b"
  shows "snd (fold (rsi_step64 p c) [p..<Suc b] s)
     = (snd (fold (rsi_step64 p c) [p..<b] s))
         [b - p := rsiValue64 (fold (smooth64 p c) [p..<Suc b] (fst s))]"
proof -
  have "fold (rsi_step64 p c) [p..<Suc b] s = rsi_step64 p c b (fold (rsi_step64 p c) [p..<b] s)"
    using assms by simp
  moreover have "fold (smooth64 p c) [p..<Suc b] (fst s)
      = smooth64 p c b (fold (smooth64 p c) [p..<b] (fst s))"
    using assms by simp
  ultimately show ?thesis by (simp only: snd_rsi_step64 rsi_loop64_fst)
qed

lemma rsi_loop64_written:
  assumes "p + k < b" "k < length (snd s)"
  shows "snd (fold (rsi_step64 p c) [p..<b] s) ! k
           = rsiValue64 (fold (smooth64 p c) [p..<p + k + 1] (fst s))"
  using assms
proof (induction b)
  case 0
  then show ?case by simp
next
  case (Suc b)
  have pb: "p \<le> b" using Suc.prems by simp
  show ?case
  proof (cases "p + k = b")
    case True
    then have "b - p = k" by auto
    then show ?thesis
      using True Suc.prems pb by (simp add: rsi_loop64_Suc rsi_loop64_length del: upt_Suc)
  next
    case False
    then have lt: "p + k < b" using Suc.prems by simp
    then have "b - p \<noteq> k" by auto
    then show ?thesis
      using Suc.IH[OF lt Suc.prems(2)] pb by (simp add: rsi_loop64_Suc del: upt_Suc)
  qed
qed

lemma CalculateRSI64_unfold:
  assumes "period + 1 \<le> length (Data bts)"
  shows "CalculateRSI64 bts period
    = snd (fold (rsi_step64 period (price_changes64 (map Fin (GetClosePrices bts))))
             [period..<length (price_changes64 (map Fin (GetClosePrices bts)))]
             (seed_avgs64 period (price_changes64 (map Fin (GetClosePrices bts))),
              replicate (length (map Fin (GetClosePrices bts)) - period) (Fin 0)))"
proof -
  have "\<not> length (Data bts) < period + 1" using assms by simp
  then show ?thesis unfolding CalculateRSI64_def Let_def by (simp only: if_False)
qed

lemma length_price_changes64: "length (price_changes64 ps) = length ps - 1"
  by (simp add: price_changes64_def)

lemma CalculateRSI64_emitted:
  assumes "period + k + 1 < length (Data bts)"
  shows "CalculateRSI64 bts period ! k
     = rsiValue64 (smoothed_avgs64 period (price_changes64 (map Fin (GetClosePrices bts)))
                     (period + k + 1))"
proof -
  define c where "c = price_changes64 (map Fin (GetClosePrices bts))"
  define r where "r = replicate (length (map Fin (GetClosePrices bts)) - period) (Fin 0)"
  have 1: "period + k < length c"
    using assms by (simp add: c_def length_price_changes64 GetClosePrices_def)
  have 2: "k < length (snd (seed_avgs64 period c, r))"
    using assms by (simp add: r_def GetClosePrices_def)
  have "snd (fold (rsi_step64 period c) [period..<length c] (seed_avgs64 period c, r)) ! k
      = rsiValue64 (fold (smooth64 period c) [period..<period + k + 1]
                      (fst (seed_avgs64 period c, r)))"
    using 1 2 by (rule rsi_loop64_written)
  moreover have "CalculateRSI64 bts period
      = snd (fold (rsi_step64 period c) [period..<length c] (seed_avgs64 period c, r))"
    unfolding c_def r_def using assms by (intro CalculateRSI64_unfold) simp
  ultimately show ?thesis
    unfolding smoothed_avgs64_def c_def by (simp only: fst_conv)
qed

lemma price_changes64_bound:
  assumes cs: "\<forall>x\<in>set cs. 0 \<le> x \<and> x \<le> B" and B: "B \<le> MaxFloat64"
    and i: "i < length cs - 1"
  shows "finite_in (- B) B (price_changes64 (map Fin cs) ! i)"
proof -
  have a: "cs ! (i + 1) \<in> set cs" and b: "cs ! i \<in> set cs" using i by simp_all
  have a': "0 \<le> cs ! (i + 1)" "cs ! (i + 1) \<le> B" using cs a by blast+
  have b': "0 \<le> cs ! i" "cs ! i \<le> B" using cs b by blast+
  have "price_changes64 (map Fin cs) ! i = fsub (Fin (cs ! (i + 1))) (Fin (cs ! i))"
    using i by (simp add: price_changes64_def)
  moreover have "to_float64 (cs ! (i + 1) + - cs ! i) = Fin (cs ! (i + 1) + - cs ! i)"
    using a' b' B by (intro to_float64_finite) linarith+
  ultimately have "price_changes64 (map Fin cs) ! i = Fin (cs ! (i + 1) + - cs ! i)"
    by (simp add: fsub_def)
  then show ?thesis using a' b' by (simp add: finite_in_Fin)
qed

lemma rsi_loop64_range:
  assumes "\<forall>i\<in>set xs. finite_in (- B) B (c ! i)"
    and "finite_in 0 B (fst (fst s))" "finite_in 0 B (snd (fst s))"
    and "\<forall>v\<in>set (snd s). finite_in 0 100 v"
    and "1 \<le> p" "real p * B \<le> MaxFloat64"
  shows "\<forall>v\<in>set (snd (fold (rsi_step64 p c) xs s)). finite_in 0 100 v"
  using assms(1-4)
proof (induction xs arbitrary: s)
  case Nil
  then show ?case by simp
next
  case (Cons i xs)
  obtain a r where s: "s = (a, r)" by (cases s)
  define a' where "a' = smooth64 p c i a"
  have step: "rsi_step64 p c i s = (a', r[i - p := rsiValue64 a'])"
    by (simp add: s a'_def rsi_step64_def Let_def)
  have ci: "finite_in (- B) B (c ! i)" using Cons.prems(1) by simp
  have a0: "finite_in 0 B (fst a)" "finite_in 0 B (snd a)" using Cons.prems(2,3) by (simp_all add: s)
  have a: "finite_in 0 B (fst a') \<and> finite_in 0 B (snd a')"
    unfolding a'_def using ci a0 assms(5,6) by (rule smooth64_bound)
  obtain g where g: "fst a' = Fin g" "0 \<le> g" using finite_inD[of 0 B "fst a'"] a by blast
  obtain l where l: "snd a' = Fin l" "0 \<le> l" using finite_inD[of 0 B "snd a'"] a by blast
  have "a' = (Fin g, Fin l)" using g l by (cases a') simp
  then have v: "finite_in 0 100 (rsiValue64 a')"
    using rsiValue64_range[OF g(2) l(2)] by simp
  have r: "\<forall>v\<in>set r. finite_in 0 100 v" using Cons.prems(4) by (simp add: s)
  have upd: "\<forall>v\<in>set (r[i - p := rsiValue64 a']). finite_in 0 100 v"
  proof
    fix v assume "v \<in> set (r[i - p := rsiValue64 a'])"
    then have "v \<in> insert (rsiValue64 a') (set r)"
      using set_update_subset_insert[of r "i - p" "rsiValue64 a'"] by blast
    then show "finite_in 0 100 v" using v r by blast
  qed
  have rest: "\<forall>i\<in>set xs. finite_in (- B) B (c ! i)" using Cons.prems(1) by simp
  have "\<forall>v\<in>set (snd (fold (rsi_step64 p c) xs (rsi_step64 p c i s))). finite_in 0 100 v"
    using rest a upd by (intro Cons.IH) (simp_all add: step)
  then show ?case by simp
qed

lemma CalculateRSI64_range:
  assumes p: "1 \<le> period"
    and cs: "\<forall>b\<in>set (Data bts). 0 \<le> Close b \<and> Close b * real period \<le> MaxFloat64"
  shows "\<forall>v\<in>set (CalculateRSI64 bts period). finite_in 0 100 v"
proof (cases "length (Data bts) < period + 1")
  case True
  then show ?thesis by (simp add: CalculateRSI64_def)
next
  case False
  define B where "B = MaxFloat64 / real period"
  have p0: "0 < real period" using p by simp
  have pB: "real period * B = MaxFloat64" using p0 by (simp add: B_def)
  have B0: "0 \<le> B" using MaxFloat64_100 p0 by (simp add: B_def)
  have BM: "B \<le> MaxFloat64"
  proof -
    have "B * 1 \<le> B * real period" using p B0 by (intro mult_left_mono) simp_all
    then show ?thesis using pB by (simp add: mult.commute)
  qed
  have closes: "\<forall>x\<in>set (GetClosePrices bts). 0 \<le> x \<and> x \<le> B"
    using cs p0 by (auto simp: GetClosePrices_def B_def pos_le_divide_eq)
  define c where "c = price_changes64 (map Fin (GetClosePrices bts))"
  define r where "r = replicate (length (map Fin (GetClosePrices bts)) - period) (Fin 0)"
  have lc: "length c = length (GetClosePrices bts) - 1"
    by (simp add: c_def length_price_changes64)
  have ch: "\<forall>i<length c. finite_in (- B) B (c ! i)"
    unfolding c_def using closes BM lc[unfolded c_def]
    by (intro allI impI price_changes64_bound) simp_all
  have pl: "period \<le> length c" using False by (simp add: lc GetClosePrices_def)
  have eq: "CalculateRSI64 bts period
      = snd (fold (rsi_step64 period c) [period..<length c] (seed_avgs64 period c, r))"
    unfolding c_def r_def using False by (intro CalculateRSI64_unfold) simp
  have seed: "finite_in 0 B (fst (seed_avgs64 period c)) \<and> finite_in 0 B (snd (seed_avgs64 period c))"
    using ch pl p B0 pB by (intro seed_avgs64_bound) simp_all
  have "\<forall>v\<in>set (snd (fold (rsi_step64 period c) [period..<length c] (seed_avgs64 period c, r))).
          finite_in 0 100 v"
  proof (rule rsi_loop64_range[where B = B])
    show "\<forall>i\<in>set [period..<length c]. finite_in (- B) B (c ! i)" using ch by simp
    show "finite_in 0 B (fst (fst (seed_avgs64 period c, r)))" using seed by simp
    show "finite_in 0 B (snd (fst (seed_avgs64 period c, r)))" using seed by simp
    show "\<forall>v\<in>set (snd (seed_avgs64 period c, r)). finite_in 0 100 v"
      by (simp add: r_def finite_in_Fin)
    show "1 \<le> period" by (rule p)
    show "real period * B \<le> MaxFloat64" using pB by simp
  qed
  then show ?thesis unfolding eq .
qed

text \<open>
  Claim C3 (range of the RSI values), as amended, on \<^verbatim>\<open>float64\<close> values with infinities
  and NaN. For a period of at least 1 and a series of at least \<open>period + 1\<close> bars whose
  closes are not negative and at most \<open>MaxFloat64 / period\<close>, every returned value is a
  finite number between 0 and 100; the value written for the change \<open>period + k\<close> is
  computed from the smoothed averages after that change, and it is exactly 100 when the
  smoothed average loss is 0. The bound on the closes keeps the sums of the seed window
  and of the smoothing step in the finite range.
\<close>

theorem CalculateRSI64_bounded:
  assumes "1 \<le> period" "period + 1 \<le> length (Data bts)"
    and "\<forall>b\<in>set (Data bts). 0 \<le> Close b \<and> Close b * real period \<le> MaxFloat64"
  shows "(\<forall>v\<in>set (CalculateRSI64 bts period). finite_in 0 100 v) \<and>
         (\<forall>k. period + k + 1 < length (Data bts) \<longrightarrow>
            CalculateRSI64 bts period ! k
              = rsiValue64 (smoothed_avgs64 period
                  (price_changes64 (map Fin (GetClosePrices bts))) (period + k + 1)) \<and>
            (snd (smoothed_avgs64 period
                  (price_changes64 (map Fin (GetClosePrices bts))) (period + k + 1)) = Fin 0
               \<longrightarrow> CalculateRSI64 bts period ! k = Fin 100))"
proof (intro conjI allI impI)
  show "\<forall>v\<in>set (CalculateRSI64 bts period). finite_in 0 100 v"
    using assms(1,3) by (rule CalculateRSI64_range)
next
  fix k assume "period + k + 1 < length (Data bts)"
  then show "CalculateRSI64 bts period ! k
      = rsiValue64 (smoothed_avgs64 period
          (price_changes64 (map Fin (GetClosePrices bts))) (period + k + 1))"
    by (rule CalculateRSI64_emitted)
next
  fix k
  assume k: "period + k + 1 < length (Data bts)"
    and z: "snd (smoothed_avgs64 period
          (price_changes64 (map Fin (GetClosePrices bts))) (period + k + 1)) = Fin 0"
  have "rsiValue64 (smoothed_avgs64 period
          (price_changes64 (map Fin (GetClosePrices bts))) (period + k + 1)) = Fin 100"
    using z by (cases "smoothed_avgs64 period
          (price_changes64 (map Fin (GetClosePrices bts))) (period + k + 1)")
      (simp add: rsiValue64_def)
  then show "CalculateRSI64 bts period ! k = Fin 100"
    using CalculateRSI64_emitted[OF k] by simp
qed


theorem CalculateRSI64_bounded_witness:
  "CalculateRSI64 (series [bar 0 100, bar 1 101, bar 2 102]) 1 ! 0 = Fin 100 \<and>
   finite_in 0 100 (CalculateRSI64 (series [bar 0 100, bar 1 101, bar 2 102]) 1 ! 1)"
proof -
  define s where "s = series [bar 0 100, bar 1 101, bar 2 102]"
  have h1: "(1::nat) \<le> 1" by simp
  have h2: "1 + 1 \<le> length (Data s)"
    by (simp add: s_def series_def)
  have h3: "\<forall>b\<in>set (Data s). 0 \<le> Close b \<and> Close b * real 1 \<le> MaxFloat64"
    by (simp add: s_def series_def bar_def MaxFloat64_def)
  have h4: "1 + 0 + 1 < length (Data s)"
    by (simp add: s_def series_def)
  have c: "price_changes64 (map Fin (GetClosePrices s)) = [Fin 1, Fin 1]"
    using MaxFloat64_100
    by (simp add: s_def price_changes64_def GetClosePrices_def series_def bar_def fsub_def
        to_float64_finite numeral_2_eq_2 upt_rec)
  have h5: "snd (smoothed_avgs64 1 (price_changes64 (map Fin (GetClosePrices s))) (1 + 0 + 1)) = Fin 0"
    unfolding c using MaxFloat64_100
    by (simp add: smoothed_avgs64_def smooth64_def seed_avgs64_def seed_step64_def
        to_float64_finite Let_def numeral_2_eq_2)
  have "length (CalculateRSI64 s 1) = 2"
    unfolding CalculateRSI64_unfold[OF h2]
    by (simp add: rsi_loop64_length s_def series_def GetClosePrices_def)
  then have h6: "CalculateRSI64 s 1 ! 1 \<in> set (CalculateRSI64 s 1)"
    by (intro nth_mem) simp
  show ?thesis
    using CalculateRSI64_bounded[OF h1 h2 h3] h4 h5 h6 unfolding s_def by blast
qed

text \<open>
  Without the bound on the closes the claim fails. On the closes
  \<open>1, 1.7e308, 1, 1.7e308, 1, 1\<close> and the period 2 the smoothed average gain overflows to
  \<open>+Inf\<close> at the third change and the smoothed average loss at the fourth; from there on
  the relative strength is \<open>Inf / Inf\<close>, and the values written are NaN.
\<close>

theorem CalculateRSI_overflow_counterexample:
  "CalculateRSI64 (series [bar 0 1, bar 1 (17 * 10 ^ 307), bar 2 1, bar 3 (17 * 10 ^ 307),
      bar 4 1, bar 5 1]) 2 = [Fin 100, NaN, NaN, Fin 0]"
proof -
  define big :: real where "big = 17 * 10 ^ 307"
  define x where "x = big - 1"
  define s where "s = series [bar 0 1, bar 1 big, bar 2 1, bar 3 big, bar 4 1, bar 5 1]"
  define c where "c = price_changes64 (map Fin (GetClosePrices s))"
  have xM: "x \<le> MaxFloat64" unfolding x_def big_def MaxFloat64_def by simp
  have o: "2 ^ 1024 - 2 ^ 970 \<le> x * 5 / 4" unfolding x_def big_def by simp
  have x0: "0 < x" using o MaxFloat64_boundary MaxFloat64_100 by linarith
  have o1: "2 ^ 1024 - 2 ^ 970 \<le> x / 2 * 1 + x" using o x0 by linarith
  have o2: "2 ^ 1024 - 2 ^ 970 \<le> x / 4 * 1 + x" using o x0 by linarith
  have bx: "big = x + 1" by (simp add: x_def)
  have f1: "to_float64 x = Fin x" using x0 xM by (intro to_float64_finite) linarith+
  have f2: "to_float64 (- x) = Fin (- x)" using x0 xM by (intro to_float64_finite) linarith+
  have f3: "to_float64 (x / 2) = Fin (x / 2)" using x0 xM by (intro to_float64_finite) linarith+
  have f4: "to_float64 (x / 4) = Fin (x / 4)" using x0 xM by (intro to_float64_finite) linarith+
  have f5: "to_float64 0 = Fin 0" using x0 xM by (intro to_float64_finite) linarith+
  have c: "c = [Fin x, Fin (- x), Fin x, Fin (- x), Fin 0]"
    unfolding c_def s_def price_changes64_def GetClosePrices_def series_def bar_def fsub_def bx
    by (simp add: upt_rec f1 f2 f5)
  have seed: "seed_avgs64 2 c = (Fin (x / 2), Fin (x / 2))"
    using x0 f1 f3 by (simp add: seed_avgs64_def seed_step64_def c numeral_2_eq_2)
  have s2: "smooth64 2 c 2 (Fin (x / 2), Fin (x / 2)) = (PInf, Fin (x / 4))"
    using x0 f3 f4 to_float64_PInf[OF o1] by (simp add: smooth64_def c Let_def)
  have s3: "smooth64 2 c 3 (PInf, Fin (x / 4)) = (PInf, PInf)"
    using x0 f4 to_float64_PInf[OF o2] by (simp add: smooth64_def c Let_def)
  have s4: "smooth64 2 c 4 (PInf, PInf) = (PInf, PInf)"
    using f5 by (simp add: smooth64_def c Let_def)
  have r2: "rsiValue64 (PInf, Fin (x / 4)) = Fin 100"
    using x0 MaxFloat64_100 by (simp add: rsiValue64_def fsub_def to_float64_finite)
  have r3: "rsiValue64 (PInf, PInf) = NaN"
    by (simp add: rsiValue64_def fsub_def)
  have len: "length c = 5" by (simp add: c)
  have n: "length (Data s) = 6" by (simp add: s_def series_def)
  have idx: "[2..<5] = [2, 3, 4::nat]" by (simp add: upt_rec)
  have rep: "replicate (6 - 2) (Fin 0) = [Fin 0, Fin 0, Fin 0, Fin 0]"
    by (simp add: eval_nat_numeral)
  have "CalculateRSI64 s 2
      = snd (fold (rsi_step64 2 c) [2..<length c]
               (seed_avgs64 2 c, replicate (length (map Fin (GetClosePrices s)) - 2) (Fin 0)))"
    unfolding c_def by (intro CalculateRSI64_unfold) (simp add: n)
  also have "\<dots> = snd (fold (rsi_step64 2 c) [2, 3, 4]
               ((Fin (x / 2), Fin (x / 2)), [Fin 0, Fin 0, Fin 0, Fin 0]))"
    unfolding len idx seed by (simp only: length_map GetClosePrices_def n rep)
  also have "\<dots> = [Fin 100, NaN, NaN, Fin 0]"
    by (simp add: rsi_step64_def Let_def s2 s3 s4 r2 r3)
  finally show ?thesis unfolding s_def big_def .
qed

section \<open>Properties of calculateEMA\<close>

lemma ema_step_length: "length (ema_step ps p m i e) = length e"
  by (simp add: ema_step_def)

lemma ema_step_same:
  "i < length e \<Longrightarrow> ema_step ps p m i e ! i = ps ! (p + i - 1) * m + e ! (i - 1) * (1 - m)"
  by (simp add: ema_step_def)

lemma ema_step_other: "j \<noteq> i \<Longrightarrow> ema_step ps p m i e ! j = e ! j"
  by (simp add: ema_step_def)

lemma ema_loop_length: "length (fold (ema_step ps p m) xs e) = length e"
  by (induction xs arbitrary: e) (simp_all add: ema_step_length)

lemma ema_loop_below: "\<forall>i\<in>set xs. k < i \<Longrightarrow> fold (ema_step ps p m) xs e ! k = e ! k"
  by (induction xs arbitrary: e) (simp_all add: ema_step_other)

lemma ema_loop_nth:
  assumes "1 \<le> k" "k < b" "b \<le> length e"
  shows "fold (ema_step ps p m) [1..<b] e ! k
           = ps ! (p + k - 1) * m + fold (ema_step ps p m) [1..<b] e ! (k - 1) * (1 - m)"
  using assms
proof (induction b)
  case 0
  then show ?case by simp
next
  case (Suc b)
  define e' where "e' = fold (ema_step ps p m) [1..<b] e"
  have b1: "1 \<le> b" using Suc.prems by simp
  then have unf: "fold (ema_step ps p m) [1..<Suc b] e = ema_step ps p m b e'"
    by (simp add: e'_def)
  have len: "length e' = length e" by (simp add: e'_def ema_loop_length)
  show ?case
  proof (cases "k = b")
    case True
    have "b - 1 \<noteq> b" using b1 by simp
    then have "ema_step ps p m b e' ! (b - 1) = e' ! (b - 1)" by (rule ema_step_other)
    moreover have "ema_step ps p m b e' ! b = ps ! (p + b - 1) * m + e' ! (b - 1) * (1 - m)"
      using Suc.prems len by (intro ema_step_same) simp
    ultimately show ?thesis unfolding unf True by simp
  next
    case False
    then have kb: "k < b" using Suc.prems by simp
    have IH: "e' ! k = ps ! (p + k - 1) * m + e' ! (k - 1) * (1 - m)"
      unfolding e'_def using Suc.prems kb by (intro Suc.IH) simp_all
    have "ema_step ps p m b e' ! k = e' ! k" using False by (rule ema_step_other)
    moreover have "ema_step ps p m b e' ! (k - 1) = e' ! (k - 1)"
      using kb by (intro ema_step_other) simp
    ultimately show ?thesis unfolding unf using IH by simp
  qed
qed

lemma index_sum_loop:
  "n \<le> length ps \<Longrightarrow> fold (\<lambda>i sum. sum + ps ! i) [0..<n] (0::real) = sum_list (take n ps)"
proof (induction n)
  case 0
  then show ?case by simp
next
  case (Suc n)
  then show ?case by (simp add: take_Suc_conv_app_nth)
qed

lemma calculateEMA_unfold:
  assumes "p \<le> length ps"
  shows "calculateEMA ps p
    = fold (ema_step ps p (2 / (real p + 1))) [1..<length ps - p + 1]
        ((replicate (length ps - p + 1) 0)[0 := sum_list (take p ps) / real p])"
proof -
  have "\<not> length ps < p" using assms by simp
  then have "calculateEMA ps p
    = fold (ema_step ps p (2 / (real p + 1)))
        [1..<length ((replicate (length ps - p + 1) (0::real))
                       [0 := fold (\<lambda>i sum. sum + ps ! i) [0..<p] 0 / real p])]
        ((replicate (length ps - p + 1) 0)[0 := fold (\<lambda>i sum. sum + ps ! i) [0..<p] 0 / real p])"
    unfolding calculateEMA_def Let_def by (simp only: if_False)
  then show ?thesis
    using assms by (simp only: index_sum_loop length_list_update length_replicate)
qed

lemma length_calculateEMA:
  "length (calculateEMA ps p) = (if length ps < p then 0 else length ps - p + 1)"
proof (cases "length ps < p")
  case True
  then show ?thesis by (simp add: calculateEMA_def)
next
  case False
  then have "p \<le> length ps" by simp
  then show ?thesis
    using False by (simp only: calculateEMA_unfold ema_loop_length length_list_update length_replicate if_False)
qed

lemma calculateEMA_length_le: "1 \<le> p \<Longrightarrow> length (calculateEMA xs p) \<le> length xs"
  by (auto simp: length_calculateEMA)

lemma calculateEMA_first:
  assumes "p \<le> length ps"
  shows "calculateEMA ps p ! 0 = sum_list (take p ps) / real p"
proof -
  define e where "e = (replicate (length ps - p + 1) (0::real))[0 := sum_list (take p ps) / real p]"
  have "\<forall>i\<in>set [1..<length ps - p + 1]. 0 < i" by auto
  then have "fold (ema_step ps p (2 / (real p + 1))) [1..<length ps - p + 1] e ! 0 = e ! 0"
    by (rule ema_loop_below)
  moreover have "e ! 0 = sum_list (take p ps) / real p" by (simp add: e_def)
  ultimately show ?thesis using assms by (simp only: calculateEMA_unfold e_def)
qed

lemma calculateEMA_rec:
  assumes "p \<le> length ps" "1 \<le> i" "i < length (calculateEMA ps p)"
  shows "calculateEMA ps p ! i
    = ps ! (p + i - 1) * (2 / (real p + 1)) + calculateEMA ps p ! (i - 1) * (1 - 2 / (real p + 1))"
proof -
  define e where "e = (replicate (length ps - p + 1) (0::real))[0 := sum_list (take p ps) / real p]"
  have i: "i < length ps - p + 1" using assms by (simp add: length_calculateEMA)
  have le: "length ps - p + 1 \<le> length e" by (simp add: e_def)
  have "fold (ema_step ps p (2 / (real p + 1))) [1..<length ps - p + 1] e ! i
      = ps ! (p + i - 1) * (2 / (real p + 1))
        + fold (ema_step ps p (2 / (real p + 1))) [1..<length ps - p + 1] e ! (i - 1) * (1 - 2 / (real p + 1))"
    using assms(2) i le by (rule ema_loop_nth)
  then show ?thesis using assms(1) by (simp only: calculateEMA_unfold e_def)
qed

text \<open>
  Claim C4 (\<^verbatim>\<open>calculateEMA\<close>). For \<open>1 \<le> period \<le> n\<close> the result has
  \<open>n - period + 1\<close> elements, the first is the mean of the first \<open>period\<close> values and
  every later one is \<open>values[period-1+i] * k + ema[i-1] * (1 - k)\<close> with
  \<open>k = 2 / (period + 1)\<close>; for \<open>n < period\<close> the result is empty.
\<close>

theorem calculateEMA_recurrence:
  "(1 \<le> period \<and> period \<le> length values \<longrightarrow>
      length (calculateEMA values period) = length values - period + 1 \<and>
      calculateEMA values period ! 0 = sum_list (take period values) / real period \<and>
      (\<forall>i. 1 \<le> i \<and> i < length (calculateEMA values period) \<longrightarrow>
         calculateEMA values period ! i
           = values ! (period - 1 + i) * (2 / (real period + 1))
             + calculateEMA values period ! (i - 1) * (1 - 2 / (real period + 1)))) \<and>
   (length values < period \<longrightarrow> calculateEMA values period = [])"
proof (intro conjI impI allI)
  assume "1 \<le> period \<and> period \<le> length values"
  then show "length (calculateEMA values period) = length values - period + 1"
    by (simp add: length_calculateEMA)
next
  assume "1 \<le> period \<and> period \<le> length values"
  then show "calculateEMA values period ! 0 = sum_list (take period values) / real period"
    by (intro calculateEMA_first) simp
next
  fix i
  assume p: "1 \<le> period \<and> period \<le> length values"
    and i: "1 \<le> i \<and> i < length (calculateEMA values period)"
  have "period - 1 + i = period + i - 1" using p by simp
  moreover have "calculateEMA values period ! i
      = values ! (period + i - 1) * (2 / (real period + 1))
        + calculateEMA values period ! (i - 1) * (1 - 2 / (real period + 1))"
    using p i by (intro calculateEMA_rec) simp_all
  ultimately show "calculateEMA values period ! i
      = values ! (period - 1 + i) * (2 / (real period + 1))
        + calculateEMA values period ! (i - 1) * (1 - 2 / (real period + 1))"
    by simp
next
  assume "length values < period"
  then show "calculateEMA values period = []" by (simp add: calculateEMA_def)
qed

theorem calculateEMA_recurrence_witness:
  "length (calculateEMA [1, 2, 3, 4] 2) = 3 \<and> calculateEMA [1, 2, 3, 4] 2 ! 0 = 3 / 2 \<and>
   calculateEMA [1, 2, 3, 4] 2 ! 1 = 5 / 2 \<and> calculateEMA [1] 2 = []"
proof -
  have h: "(1::nat) \<le> 2 \<and> 2 \<le> length [1, 2, 3, 4::real]" by simp
  have l: "length (calculateEMA [1, 2, 3, 4] 2) = 3"
    using calculateEMA_recurrence[of 2 "[1, 2, 3, 4]"] h by simp
  have z: "calculateEMA [1, 2, 3, 4] 2 ! 0 = 3 / 2"
    using calculateEMA_recurrence[of 2 "[1, 2, 3, 4]"] h by simp
  have "(1::nat) \<le> 1 \<and> 1 < length (calculateEMA [1, 2, 3, 4] 2)" using l by simp
  then have "calculateEMA [1, 2, 3, 4] 2 ! 1
      = [1, 2, 3, 4] ! (2 - 1 + 1) * (2 / (real 2 + 1)) + calculateEMA [1, 2, 3, 4] 2 ! (1 - 1) * (1 - 2 / (real 2 + 1))"
    using calculateEMA_recurrence[of 2 "[1, 2, 3, 4]"] h by blast
  then have o: "calculateEMA [1, 2, 3, 4] 2 ! 1 = 5 / 2" using z by simp
  have "length [1::real] < 2" by simp
  then have e: "calculateEMA [1] 2 = []"
    using calculateEMA_recurrence[of 2 "[1]"] by blast
  show ?thesis using l z o e by simp
qed

section \<open>Properties of CalculateMACD\<close>

lemma macd_loop_length: "length (fold (macd_step a sl) xs m) = length m"
  by (induction xs arbitrary: m) (simp_all add: macd_step_def)

lemma histogram_step_length: "length (histogram_step m sg k i h) = length h"
  by (simp add: histogram_step_def)

lemma histogram_step_same:
  "i < length h \<Longrightarrow> k + i < length m \<Longrightarrow>
   histogram_step m sg k i h ! i = m ! (k + i) - sg ! i"
  by (simp add: histogram_step_def)

lemma histogram_step_other: "j \<noteq> i \<Longrightarrow> histogram_step m sg k i h ! j = h ! j"
  by (simp add: histogram_step_def)

lemma histogram_loop_length: "length (fold (histogram_step m sg k) xs h) = length h"
  by (induction xs arbitrary: h) (simp_all add: histogram_step_length)

lemma histogram_loop_nth:
  "i < length h \<Longrightarrow> i < n \<Longrightarrow> k + i < length m \<Longrightarrow>
   fold (histogram_step m sg k) [0..<n] h ! i = m ! (k + i) - sg ! i"
proof (induction n)
  case 0
  then show ?case by simp
next
  case (Suc n)
  show ?case
  proof (cases "i = n")
    case True
    then show ?thesis
      using Suc.prems by (simp add: histogram_step_same histogram_loop_length)
  next
    case False
    then have "i < n" using Suc.prems by simp
    then show ?thesis
      using Suc False by (simp add: histogram_step_other)
  qed
qed

lemma CalculateMACD_short:
  "length (Data bts) < slowPeriod \<Longrightarrow>
   CalculateMACD bts fastPeriod slowPeriod signalPeriod = Some emptyMACD"
  by (simp add: CalculateMACD_def GetClosePrices_def)

lemma CalculateMACD_shape:
  assumes "slowPeriod \<le> length (Data bts)" "fastPeriod \<le> slowPeriod" "1 \<le> signalPeriod"
  shows "\<exists>r. CalculateMACD bts fastPeriod slowPeriod signalPeriod = Some r
           \<and> length (MACD r) = length (Data bts) - slowPeriod + 1
           \<and> Signal r = calculateEMA (MACD r) signalPeriod
           \<and> length (Histogram r) = length (Signal r)
           \<and> (\<forall>i<length (Histogram r).
                 Histogram r ! i
                   = MACD r ! (length (MACD r) - length (Signal r) + i) - Signal r ! i)"
proof -
  define prices where "prices = GetClosePrices bts"
  define fast where "fast = calculateEMA prices fastPeriod"
  define slow where "slow = calculateEMA prices slowPeriod"
  define macd where "macd = fold (macd_step (drop (slowPeriod - fastPeriod) fast) slow)
                              [0..<length slow] (replicate (length slow) 0)"
  define sg where "sg = calculateEMA macd signalPeriod"
  define hist where "hist = fold (histogram_step macd sg (length macd - length sg))
                              [0..<length sg] (replicate (length sg) 0)"
  have n: "length prices = length (Data bts)" by (simp add: prices_def GetClosePrices_def)
  have lslow: "length slow = length (Data bts) - slowPeriod + 1"
    using assms n by (simp add: slow_def length_calculateEMA)
  have lfast: "length fast = length (Data bts) - fastPeriod + 1"
    using assms n by (simp add: fast_def length_calculateEMA)
  have lmacd: "length macd = length (Data bts) - slowPeriod + 1"
    unfolding macd_def by (simp only: macd_loop_length length_replicate lslow)
  have lsig: "length sg \<le> length macd"
    unfolding sg_def using assms(3) by (rule calculateEMA_length_le)
  have c1: "\<not> length prices < slowPeriod" using assms n by simp
  have c2: "\<not> (slowPeriod < fastPeriod \<or> length fast < slowPeriod - fastPeriod)"
    using assms lfast by auto
  have c3: "\<not> length macd < length sg" using lsig by simp
  have eq: "CalculateMACD bts fastPeriod slowPeriod signalPeriod
        = Some \<lparr>MACD = macd, Signal = sg, Histogram = hist\<rparr>"
    unfolding CalculateMACD_def Let_def
    unfolding prices_def[symmetric] fast_def[symmetric] slow_def[symmetric]
    unfolding macd_def[symmetric]
    unfolding sg_def[symmetric]
    unfolding hist_def[symmetric]
    using c1 c2 c3 by (simp only: if_False)
  have lhist: "length hist = length sg" by (simp add: hist_def histogram_loop_length)
  have hist: "\<forall>i<length hist. hist ! i = macd ! (length macd - length sg + i) - sg ! i"
  proof (intro allI impI)
    fix i assume "i < length hist"
    then have i: "i < length sg" using lhist by simp
    then have "length macd - length sg + i < length macd" using lsig by linarith
    then show "hist ! i = macd ! (length macd - length sg + i) - sg ! i"
      unfolding hist_def using i by (intro histogram_loop_nth) simp_all
  qed
  show ?thesis using eq lmacd lhist hist sg_def by simp
qed

text \<open>
  Claim C5 (\<^verbatim>\<open>CalculateMACD\<close>), as amended. For a series of at least \<open>slowPeriod\<close>
  bars, \<open>1 \<le> fastPeriod \<le> slowPeriod\<close> and \<open>signalPeriod \<ge> 1\<close> the function returns
  without a panic, the MACD line has \<open>n - slowPeriod + 1\<close> values, the histogram has
  \<open>min (len signalLine) (len macdLine)\<close> values and is aligned to the tail of the MACD
  line. The signal line is shorter than the MACD line by \<open>signalPeriod - 1\<close> when the
  MACD line has at least \<open>signalPeriod\<close> values; otherwise \<^verbatim>\<open>calculateEMA\<close> returns
  nothing, and signal line and histogram are empty. A series shorter than \<open>slowPeriod\<close>
  gives the empty result.
\<close>

theorem CalculateMACD_alignment:
  "(slowPeriod \<le> length (Data bts) \<and> 1 \<le> fastPeriod \<and> fastPeriod \<le> slowPeriod
      \<and> 1 \<le> signalPeriod \<longrightarrow>
     (\<exists>r. CalculateMACD bts fastPeriod slowPeriod signalPeriod = Some r \<and>
          length (MACD r) = length (Data bts) - slowPeriod + 1 \<and>
          length (Histogram r) = min (length (Signal r)) (length (MACD r)) \<and>
          (\<forall>i<length (Histogram r).
             Histogram r ! i
               = MACD r ! (length (MACD r) - length (Signal r) + i) - Signal r ! i) \<and>
          (signalPeriod \<le> length (MACD r) \<longrightarrow>
             length (Signal r) + (signalPeriod - 1) = length (MACD r)) \<and>
          (length (MACD r) < signalPeriod \<longrightarrow> Signal r = [] \<and> Histogram r = []))) \<and>
   (length (Data bts) < slowPeriod \<longrightarrow>
      CalculateMACD bts fastPeriod slowPeriod signalPeriod = Some emptyMACD)"
proof (intro conjI impI)
  assume h: "slowPeriod \<le> length (Data bts) \<and> 1 \<le> fastPeriod \<and> fastPeriod \<le> slowPeriod
      \<and> 1 \<le> signalPeriod"
  then obtain r where r: "CalculateMACD bts fastPeriod slowPeriod signalPeriod = Some r"
      "length (MACD r) = length (Data bts) - slowPeriod + 1"
      "Signal r = calculateEMA (MACD r) signalPeriod"
      "length (Histogram r) = length (Signal r)"
      "\<forall>i<length (Histogram r).
         Histogram r ! i = MACD r ! (length (MACD r) - length (Signal r) + i) - Signal r ! i"
    using CalculateMACD_shape[of slowPeriod bts fastPeriod signalPeriod] by blast
  have ls: "length (Signal r)
      = (if length (MACD r) < signalPeriod then 0 else length (MACD r) - signalPeriod + 1)"
    unfolding r(3) by (rule length_calculateEMA)
  have "length (Signal r) \<le> length (MACD r)"
    unfolding r(3) using h by (intro calculateEMA_length_le) simp
  then have m: "length (Histogram r) = min (length (Signal r)) (length (MACD r))"
    using r(4) by simp
  have s1: "signalPeriod \<le> length (MACD r) \<longrightarrow>
      length (Signal r) + (signalPeriod - 1) = length (MACD r)"
    using ls h by auto
  have s2: "length (MACD r) < signalPeriod \<longrightarrow> Signal r = [] \<and> Histogram r = []"
    using ls r(4) by (auto simp: length_0_conv[symmetric] simp del: length_0_conv)
  show "\<exists>r. CalculateMACD bts fastPeriod slowPeriod signalPeriod = Some r \<and>
          length (MACD r) = length (Data bts) - slowPeriod + 1 \<and>
          length (Histogram r) = min (length (Signal r)) (length (MACD r)) \<and>
          (\<forall>i<length (Histogram r).
             Histogram r ! i
               = MACD r ! (length (MACD r) - length (Signal r) + i) - Signal r ! i) \<and>
          (signalPeriod \<le> length (MACD r) \<longrightarrow>
             length (Signal r) + (signalPeriod - 1) = length (MACD r)) \<and>
          (length (MACD r) < signalPeriod \<longrightarrow> Signal r = [] \<and> Histogram r = [])"
    using r(1,2,5) m s1 s2 by blast
next
  assume "length (Data bts) < slowPeriod"
  then show "CalculateMACD bts fastPeriod slowPeriod signalPeriod = Some emptyMACD"
    by (rule CalculateMACD_short)
qed

theorem CalculateMACD_alignment_witness:
  "(\<exists>r. CalculateMACD (rising 4) 1 2 2 = Some r \<and> length (MACD r) = 3 \<and>
        length (Signal r) = 2 \<and> length (Histogram r) = 2 \<and>
        Histogram r ! 0 = MACD r ! 1 - Signal r ! 0) \<and>
   CalculateMACD (rising 1) 1 2 2 = Some emptyMACD"
proof -
  have h: "2 \<le> length (Data (rising 4)) \<and> (1::nat) \<le> 1 \<and> (1::nat) \<le> 2 \<and> (1::nat) \<le> 2"
    by (simp add: length_rising)
  obtain r where r: "CalculateMACD (rising 4) 1 2 2 = Some r"
      "length (MACD r) = length (Data (rising 4)) - 2 + 1"
      "length (Histogram r) = min (length (Signal r)) (length (MACD r))"
      "\<forall>i<length (Histogram r).
         Histogram r ! i = MACD r ! (length (MACD r) - length (Signal r) + i) - Signal r ! i"
      "2 \<le> length (MACD r) \<longrightarrow> length (Signal r) + (2 - 1) = length (MACD r)"
    using CalculateMACD_alignment[of 2 "rising 4" 1 2] h by blast
  have m: "length (MACD r) = 3" using r(2) by (simp add: length_rising)
  have s: "length (Signal r) = 2" using r(5) m by simp
  have hl: "length (Histogram r) = 2" using r(3) m s by simp
  have "Histogram r ! 0 = MACD r ! (length (MACD r) - length (Signal r) + 0) - Signal r ! 0"
    using r(4) hl by simp
  then have h0: "Histogram r ! 0 = MACD r ! 1 - Signal r ! 0" using m s by simp
  have "length (Data (rising 1)) < 2" by (simp add: length_rising)
  then have e: "CalculateMACD (rising 1) 1 2 2 = Some emptyMACD"
    using CalculateMACD_alignment[of 2 "rising 1" 1 2] by blast
  show ?thesis using r(1) m s hl h0 e by blast
qed

text \<open>
  The claim as stated fails on the orchestrator's own configuration \<open>(12, 26, 9)\<close> at 26
  bars: the MACD line has one value and the signal line none, not \<open>1 - 8\<close>.
\<close>

theorem CalculateMACD_signal_counterexample:
  "\<exists>r. CalculateMACD (rising 26) 12 26 9 = Some r \<and> length (MACD r) = 1 \<and> Signal r = [] \<and>
       length (Signal r) + (9 - 1) \<noteq> length (MACD r)"
proof -
  have "26 \<le> length (Data (rising 26))" by (simp add: length_rising)
  then obtain r where r: "CalculateMACD (rising 26) 12 26 9 = Some r"
      "length (MACD r) = length (Data (rising 26)) - 26 + 1"
      "Signal r = calculateEMA (MACD r) 9"
    using CalculateMACD_shape[of 26 "rising 26" 12 9] by auto
  have m: "length (MACD r) = 1" using r(2) by (simp add: length_rising)
  then have "length (Signal r) = 0" unfolding r(3) by (simp add: length_calculateEMA)
  then show ?thesis using r(1) m by simp
qed

section \<open>Properties of the orchestrator\<close>

lemma CalculateBollingerBands_lengths:
  "length (Lower (CalculateBollingerBands bts period f))
     = length (Upper (CalculateBollingerBands bts period f))"
  by (simp add: CalculateBollingerBands_def emptyBollinger_def Let_def)

lemma PerformComprehensiveAnalysis_fields:
  "\<exists>a bts'. PerformComprehensiveAnalysis bts = Some (a, bts') \<and>
     RSI a = (if 14 \<le> length (Data bts) then CalculateRSI bts 14 else []) \<and>
     length (Lower (BollingerBands a)) = length (Upper (BollingerBands a))"
proof (cases "length (Data bts) < 2")
  case True
  then show ?thesis
    by (simp add: PerformComprehensiveAnalysis_def zeroAnalytics_def emptyBollinger_def)
next
  case False
  obtain m where m: "(if 26 \<le> length (Data bts) then CalculateMACD bts 12 26 9
                      else Some emptyMACD) = Some m"
  proof (cases "26 \<le> length (Data bts)")
    case True
    then obtain r where "CalculateMACD bts 12 26 9 = Some r"
      using CalculateMACD_shape[of 26 bts 12 9] by auto
    then show ?thesis using that True by simp
  next
    case False
    then show ?thesis using that by simp
  qed
  show ?thesis
    using False m
    by (simp add: PerformComprehensiveAnalysis_def zeroAnalytics_def emptyBollinger_def
          CalculateBollingerBands_lengths Let_def split: prod.splits if_splits)
qed

lemma rsi_signals_oversold:
  assumes "RSI a \<noteq> []" "last (RSI a) = 0"
  shows "rsi_signals a signals ''RSI'' = Some ''BUY - Oversold''"
proof -
  have "RSI a ! (length (RSI a) - 1) = 0" using assms by (simp add: last_conv_nth)
  then show ?thesis using assms(1) by (simp add: rsi_signals_def)
qed

lemma macd_signals_RSI: "macd_signals a signals ''RSI'' = signals ''RSI''"
  by (simp add: macd_signals_def Let_def)

lemma bollinger_signals_RSI:
  "bollinger_signals bts a signals = Some (signals', bts') \<Longrightarrow> signals' ''RSI'' = signals ''RSI''"
  by (auto simp: bollinger_signals_def Let_def split: if_splits prod.splits)

lemma bollinger_signals_total:
  "length (Lower (BollingerBands a)) = length (Upper (BollingerBands a)) \<Longrightarrow>
   \<exists>signals' bts'. bollinger_signals bts a signals = Some (signals', bts')"
proof (cases "length (Upper (BollingerBands a)) > 0")
  case True
  assume "length (Lower (BollingerBands a)) = length (Upper (BollingerBands a))"
  then have "\<not> length (Lower (BollingerBands a)) \<le> length (Upper (BollingerBands a)) - 1"
    using True by linarith
  then show ?thesis
    using True by (simp add: bollinger_signals_def Let_def split: prod.splits)
next
  case False
  then show ?thesis by (simp add: bollinger_signals_def Let_def)
qed

lemma trend_signals_RSI: "trend_signals bts signals ''RSI'' = signals ''RSI''"
  by (simp add: trend_signals_def Let_def)

lemma level_signals_RSI: "fst (level_signals bts a signals) ''RSI'' = signals ''RSI''"
  by (simp add: level_signals_def Let_def split: prod.splits)

lemma GetTradingSignals_oversold:
  assumes "RSI a \<noteq> []" "last (RSI a) = 0"
    "length (Lower (BollingerBands a)) = length (Upper (BollingerBands a))"
  shows "\<exists>signals bts'. GetTradingSignals bts a = Some (signals, bts') \<and>
           signals ''RSI'' = Some ''BUY - Oversold''"
proof -
  define s2 where "s2 = macd_signals a (rsi_signals a Map.empty)"
  have s2: "s2 ''RSI'' = Some ''BUY - Oversold''"
    unfolding s2_def by (simp add: macd_signals_RSI rsi_signals_oversold[OF assms(1,2)])
  obtain s3 b3 where b: "bollinger_signals bts a s2 = Some (s3, b3)"
    using bollinger_signals_total[OF assms(3)] by blast
  have s3: "s3 ''RSI'' = Some ''BUY - Oversold''"
    using bollinger_signals_RSI[OF b] s2 by simp
  obtain s5 b5 where l: "level_signals b3 a (trend_signals b3 s3) = (s5, b5)"
    by (cases "level_signals b3 a (trend_signals b3 s3)")
  have "s5 ''RSI'' = trend_signals b3 s3 ''RSI''"
    using level_signals_RSI[of b3 a "trend_signals b3 s3"] l by simp
  then have s5: "s5 ''RSI'' = Some ''BUY - Oversold''"
    using s3 by (simp only: trend_signals_RSI)
  have "GetTradingSignals bts a = Some (s5, b5)"
    unfolding GetTradingSignals_def Let_def s2_def[symmetric] using b l by simp
  then show ?thesis using s5 by blast
qed

text \<open>
  Claim C2 (the last RSI slot and the RSI signal). Whenever \<^verbatim>\<open>CalculateRSI\<close> returns
  a non-empty slice its last element is the zero of the allocation, which the loop never
  writes. \<^verbatim>\<open>PerformComprehensiveAnalysis\<close> returns an aggregate on every series, and
  whenever its RSI sequence is non-empty \<^verbatim>\<open>GetTradingSignals\<close>, called with that
  aggregate and any series \<open>bts2\<close>, returns a map with the entry
  \<open>RSI \<mapsto> BUY - Oversold\<close>.
\<close>

theorem RSI_signal_always_oversold:
  "(CalculateRSI bts period \<noteq> [] \<longrightarrow> last (CalculateRSI bts period) = 0) \<and>
   (\<exists>a bts'. PerformComprehensiveAnalysis bts = Some (a, bts') \<and>
      (RSI a \<noteq> [] \<longrightarrow>
         (\<exists>signals bts''. GetTradingSignals bts2 a = Some (signals, bts'') \<and>
            signals ''RSI'' = Some ''BUY - Oversold'')))"
proof (intro conjI impI)
  assume "CalculateRSI bts period \<noteq> []"
  then show "last (CalculateRSI bts period) = 0" by (rule CalculateRSI_last_zero)
next
  obtain a bts' where a: "PerformComprehensiveAnalysis bts = Some (a, bts')"
      "RSI a = (if 14 \<le> length (Data bts) then CalculateRSI bts 14 else [])"
      "length (Lower (BollingerBands a)) = length (Upper (BollingerBands a))"
    using PerformComprehensiveAnalysis_fields[of bts] by blast
  have "RSI a \<noteq> [] \<longrightarrow>
         (\<exists>signals bts''. GetTradingSignals bts2 a = Some (signals, bts'') \<and>
            signals ''RSI'' = Some ''BUY - Oversold'')"
  proof
    assume ne: "RSI a \<noteq> []"
    then have "RSI a = CalculateRSI bts 14" using a(2) by (simp split: if_splits)
    then have "last (RSI a) = 0" using ne CalculateRSI_last_zero[of bts 14] by simp
    then show "\<exists>signals bts''. GetTradingSignals bts2 a = Some (signals, bts'') \<and>
            signals ''RSI'' = Some ''BUY - Oversold''"
      using ne a(3) by (intro GetTradingSignals_oversold)
  qed
  then show "\<exists>a bts'. PerformComprehensiveAnalysis bts = Some (a, bts') \<and>
      (RSI a \<noteq> [] \<longrightarrow>
         (\<exists>signals bts''. GetTradingSignals bts2 a = Some (signals, bts'') \<and>
            signals ''RSI'' = Some ''BUY - Oversold''))"
    using a(1) by blast
qed

theorem RSI_signal_always_oversold_witness:
  "last (CalculateRSI (rising 15) 14) = 0 \<and>
   (\<exists>a bts'. PerformComprehensiveAnalysis (rising 15) = Some (a, bts') \<and> RSI a \<noteq> [] \<and>
      (\<exists>signals bts''. GetTradingSignals (rising 15) a = Some (signals, bts'') \<and>
         signals ''RSI'' = Some ''BUY - Oversold''))"
proof -
  have len: "length (CalculateRSI (rising 15) 14) = 1"
    by (simp add: length_CalculateRSI length_rising)
  then have ne: "CalculateRSI (rising 15) 14 \<noteq> []" by auto
  then have l: "last (CalculateRSI (rising 15) 14) = 0"
    using RSI_signal_always_oversold[of "rising 15" 14] by blast
  obtain a bts' where a: "PerformComprehensiveAnalysis (rising 15) = Some (a, bts')"
      "RSI a \<noteq> [] \<longrightarrow>
         (\<exists>signals bts''. GetTradingSignals (rising 15) a = Some (signals, bts'') \<and>
            signals ''RSI'' = Some ''BUY - Oversold'')"
    using RSI_signal_always_oversold[of "rising 15" 14 "rising 15"] by blast
  obtain a2 b2 where a2: "PerformComprehensiveAnalysis (rising 15) = Some (a2, b2)"
      "RSI a2 = (if 14 \<le> length (Data (rising 15)) then CalculateRSI (rising 15) 14 else [])"
    using PerformComprehensiveAnalysis_fields[of "rising 15"] by blast
  have "a2 = a" using a(1) a2(1) by simp
  then have "RSI a = CalculateRSI (rising 15) 14" using a2(2) by (simp add: length_rising)
  then have "RSI a \<noteq> []" using ne by simp
  then show ?thesis using l a by blast
qed

section \<open>Properties of FindPivotPoints\<close>

lemma sorted_last_max:
  assumes "sorted (map f xs)" "x \<in> set xs"
  shows "f x \<le> f (last xs)"
proof -
  have ne: "xs \<noteq> []" using assms(2) by auto
  obtain i where i: "i < length xs" "xs ! i = x" using assms(2) unfolding in_set_conv_nth by blast
  have "map f xs ! i \<le> map f xs ! (length xs - 1)"
    using assms(1) i(1) by (intro sorted_nth_mono) simp_all
  then show ?thesis using i ne by (simp add: last_conv_nth)
qed

text \<open>
  Claim C9 (\<^verbatim>\<open>FindPivotPoints\<close>), as amended. The function reads
  \<^verbatim>\<open>bts.Data[len(bts.Data)-1]\<close> and does not sort: on every series that is not empty its
  levels are computed from the last bar of the series as it is given, by the formulas of
  the specification. That bar has the latest timestamp when the bars are in ascending
  order of time, the order in which \<^verbatim>\<open>GenerateReport\<close> passes the series on, after
  \<^verbatim>\<open>GetLatestPrice\<close> has sorted it. On the single bar of the specification's scenario the
  levels are 100, 110 and 90.
\<close>

theorem FindPivotPoints_last_bar:
  assumes "Data bts \<noteq> []"
  shows "(let b = last (Data bts); pivot = (High b + Low b + Close b) / 3 in
            FindPivotPoints bts =
              [''pivot'' \<mapsto> pivot,
               ''r1'' \<mapsto> 2 * pivot - Low b,
               ''s1'' \<mapsto> 2 * pivot - High b,
               ''r2'' \<mapsto> pivot + (High b - Low b),
               ''s2'' \<mapsto> pivot - (High b - Low b),
               ''r3'' \<mapsto> High b + 2 * (pivot - Low b),
               ''s3'' \<mapsto> Low b - 2 * (High b - pivot)]) \<and>
         (sorted (map Timestamp (Data bts)) \<longrightarrow>
            (\<forall>b'\<in>set (Data bts). Timestamp b' \<le> Timestamp (last (Data bts))))"
proof
  have la: "last (Data bts) = Data bts ! (length (Data bts) - 1)"
    using assms by (rule last_conv_nth)
  show "let b = last (Data bts); pivot = (High b + Low b + Close b) / 3 in
            FindPivotPoints bts =
              [''pivot'' \<mapsto> pivot,
               ''r1'' \<mapsto> 2 * pivot - Low b,
               ''s1'' \<mapsto> 2 * pivot - High b,
               ''r2'' \<mapsto> pivot + (High b - Low b),
               ''s2'' \<mapsto> pivot - (High b - Low b),
               ''r3'' \<mapsto> High b + 2 * (pivot - Low b),
               ''s3'' \<mapsto> Low b - 2 * (High b - pivot)]"
    using assms unfolding FindPivotPoints_def Let_def la by simp
next
  show "sorted (map Timestamp (Data bts)) \<longrightarrow>
            (\<forall>b'\<in>set (Data bts). Timestamp b' \<le> Timestamp (last (Data bts)))"
    using sorted_last_max[of Timestamp "Data bts"] by blast
qed

theorem FindPivotPoints_last_bar_witness:
  "FindPivotPoints (series [ohlc 1 20 10 15, ohlc 2 110 90 100]) ''pivot'' = Some 100 \<and>
   FindPivotPoints (series [ohlc 1 20 10 15, ohlc 2 110 90 100]) ''r1'' = Some 110 \<and>
   FindPivotPoints (series [ohlc 1 20 10 15, ohlc 2 110 90 100]) ''s1'' = Some 90 \<and>
   FindPivotPoints (series [ohlc 1 20 10 15, ohlc 2 110 90 100]) ''r2'' = Some 120 \<and>
   FindPivotPoints (series [ohlc 1 20 10 15, ohlc 2 110 90 100]) ''s2'' = Some 80 \<and>
   FindPivotPoints (series [ohlc 1 20 10 15, ohlc 2 110 90 100]) ''r3'' = Some 130 \<and>
   FindPivotPoints (series [ohlc 1 20 10 15, ohlc 2 110 90 100]) ''s3'' = Some 70 \<and>
   Timestamp (ohlc 1 20 10 15)
     \<le> Timestamp (last (Data (series [ohlc 1 20 10 15, ohlc 2 110 90 100]))) \<and>
   FindPivotPoints (series [ohlc 7 110 90 100]) ''pivot'' = Some 100 \<and>
   FindPivotPoints (series [ohlc 7 110 90 100]) ''r1'' = Some 110 \<and>
   FindPivotPoints (series [ohlc 7 110 90 100]) ''s1'' = Some 90"
proof -
  define s where "s = series [ohlc 1 20 10 15, ohlc 2 110 90 100]"
  define t where "t = series [ohlc 7 110 90 100]"
  have ne: "Data s \<noteq> []" by (simp add: s_def series_def)
  have so: "sorted (map Timestamp (Data s))" by (simp add: s_def series_def ohlc_def)
  have mem: "ohlc 1 20 10 15 \<in> set (Data s)" by (simp add: s_def series_def)
  have la: "last (Data s) = ohlc 2 110 90 100" by (simp add: s_def series_def)
  have net: "Data t \<noteq> []" by (simp add: t_def series_def)
  have lat: "last (Data t) = ohlc 7 110 90 100" by (simp add: t_def series_def)
  have 1: "FindPivotPoints s ''pivot'' = Some 100 \<and> FindPivotPoints s ''r1'' = Some 110 \<and>
      FindPivotPoints s ''s1'' = Some 90 \<and> FindPivotPoints s ''r2'' = Some 120 \<and>
      FindPivotPoints s ''s2'' = Some 80 \<and> FindPivotPoints s ''r3'' = Some 130 \<and>
      FindPivotPoints s ''s3'' = Some 70"
    using FindPivotPoints_last_bar[OF ne] unfolding la by (simp add: Let_def ohlc_def)
  have 2: "Timestamp (ohlc 1 20 10 15) \<le> Timestamp (last (Data s))"
    using FindPivotPoints_last_bar[OF ne] so mem by blast
  have 3: "FindPivotPoints t ''pivot'' = Some 100 \<and> FindPivotPoints t ''r1'' = Some 110 \<and>
      FindPivotPoints t ''s1'' = Some 90"
    using FindPivotPoints_last_bar[OF net] unfolding lat by (simp add: Let_def ohlc_def)
  show ?thesis using 1 2 3 unfolding s_def t_def by blast
qed

text \<open>
  The claim as stated, for bars in any order, fails on a series whose latest bar (time 2,
  high 110, low 90, close 100, pivot 100) comes first: the levels are those of the older
  bar, pivot 15.
\<close>

theorem FindPivotPoints_order_counterexample:
  "FindPivotPoints (series [ohlc 2 110 90 100, ohlc 1 20 10 15]) ''pivot'' = Some 15 \<and>
   FindPivotPoints (series [ohlc 2 110 90 100, ohlc 1 20 10 15]) ''r1'' = Some 20 \<and>
   FindPivotPoints (series [ohlc 2 110 90 100, ohlc 1 20 10 15]) ''s1'' = Some 10 \<and>
   Timestamp (ohlc 1 20 10 15) < Timestamp (ohlc 2 110 90 100) \<and>
   (High (ohlc 2 110 90 100) + Low (ohlc 2 110 90 100) + Close (ohlc 2 110 90 100)) / 3 = 100"
  by (simp add: FindPivotPoints_def series_def ohlc_def Let_def)

section \<open>Properties of CalculateMaxDrawdown\<close>

lemma drawdown_step_eq:
  "drawdown_step price (peak, m)
     = (max peak price, max m ((max peak price - price) / max peak price))"
  by (simp add: drawdown_step_def Let_def max_def)

lemma running_peak_0: "ps \<noteq> [] \<Longrightarrow> running_peak ps 0 = ps ! 0"
  by (cases ps) (simp_all add: running_peak_def)

lemma running_peak_Suc:
  assumes "Suc k < length ps"
  shows "running_peak ps (Suc k) = max (running_peak ps k) (ps ! Suc k)"
proof -
  have "take (Suc (Suc k)) ps = take (Suc k) ps @ [ps ! Suc k]"
    using assms by (rule take_Suc_conv_app_nth)
  then have "set (take (Suc (Suc k)) ps) = insert (ps ! Suc k) (set (take (Suc k) ps))"
    by simp
  moreover have "set (take (Suc k) ps) \<noteq> {}" using assms by (cases ps) simp_all
  ultimately show ?thesis
    unfolding running_peak_def by (simp add: max.commute)
qed

lemma drawdown_at_0: "ps \<noteq> [] \<Longrightarrow> drawdown_at ps 0 = 0"
  by (simp add: drawdown_at_def running_peak_0)

lemma drawdown_loop:
  assumes "k < length ps"
  shows "fold drawdown_step (take (Suc k) ps) (ps ! 0, 0)
           = (running_peak ps k, Max (drawdown_at ps ` {..<Suc k}))"
  using assms
proof (induction k)
  case 0
  then have ne: "ps \<noteq> []" by auto
  then have t: "take (Suc 0) ps = [ps ! 0]" by (cases ps) simp_all
  have "drawdown_at ps ` {..<Suc 0} = {0}"
    using ne by (simp add: lessThan_Suc drawdown_at_0)
  then have m: "Max (drawdown_at ps ` {..<Suc 0}) = 0" by simp
  show ?case
    unfolding t m using ne by (simp add: drawdown_step_eq running_peak_0)
next
  case (Suc k)
  have t: "take (Suc (Suc k)) ps = take (Suc k) ps @ [ps ! Suc k]"
    using Suc.prems by (rule take_Suc_conv_app_nth)
  have IH: "fold drawdown_step (take (Suc k) ps) (ps ! 0, 0)
           = (running_peak ps k, Max (drawdown_at ps ` {..<Suc k}))"
    using Suc by simp
  have img: "drawdown_at ps ` {..<Suc (Suc k)}
      = insert (drawdown_at ps (Suc k)) (drawdown_at ps ` {..<Suc k})"
    by (simp add: lessThan_Suc)
  have "0 \<in> {..<Suc k}" by simp
  then have "{..<Suc k} \<noteq> {}" by blast
  then have fin: "finite (drawdown_at ps ` {..<Suc k})" "drawdown_at ps ` {..<Suc k} \<noteq> {}"
    by simp_all
  have mx: "Max (drawdown_at ps ` {..<Suc (Suc k)})
      = max (Max (drawdown_at ps ` {..<Suc k})) (drawdown_at ps (Suc k))"
    unfolding img using fin by (simp add: max.commute)
  have "fold drawdown_step (take (Suc (Suc k)) ps) (ps ! 0, 0)
      = drawdown_step (ps ! Suc k) (running_peak ps k, Max (drawdown_at ps ` {..<Suc k}))"
    unfolding t by (simp add: IH)
  also have "\<dots> = (running_peak ps (Suc k),
      max (Max (drawdown_at ps ` {..<Suc k})) (drawdown_at ps (Suc k)))"
    unfolding drawdown_step_eq using Suc.prems
    by (simp add: running_peak_Suc drawdown_at_def)
  finally show ?case unfolding mx .
qed

lemma CalculateMaxDrawdown_refines:
  assumes "Data bts \<noteq> []"
  shows "CalculateMaxDrawdown bts = spec_maxDrawdown (GetClosePrices bts)"
proof -
  define ps where "ps = GetClosePrices bts"
  have ne: "ps \<noteq> []" using assms by (simp add: ps_def GetClosePrices_def)
  then obtain k where k: "length ps = Suc k" by (cases ps) simp_all
  then have "fold drawdown_step (take (Suc k) ps) (ps ! 0, 0)
      = (running_peak ps k, Max (drawdown_at ps ` {..<Suc k}))"
    by (intro drawdown_loop) simp
  then have "snd (fold drawdown_step ps (ps ! 0, 0)) = Max (drawdown_at ps ` {..<length ps})"
    using k by simp
  then show ?thesis
    using ne unfolding CalculateMaxDrawdown_def Let_def spec_maxDrawdown_def ps_def[symmetric]
    by simp
qed

lemma drawdown_loop_nonneg: "0 \<le> snd s \<Longrightarrow> 0 \<le> snd (fold drawdown_step ps s)"
proof (induction ps arbitrary: s)
  case Nil
  then show ?case by simp
next
  case (Cons p ps)
  obtain a b where s: "s = (a, b)" by (cases s)
  have "0 \<le> snd (drawdown_step p s)"
    using Cons.prems unfolding s drawdown_step_eq by simp
  then show ?case using Cons.IH by simp
qed

lemma CalculateMaxDrawdown_nonneg: "0 \<le> CalculateMaxDrawdown bts"
  by (simp add: CalculateMaxDrawdown_def Let_def drawdown_loop_nonneg)

lemma running_peak_sorted:
  assumes "sorted ps" "i < length ps"
  shows "running_peak ps i = ps ! i"
proof -
  have "ps ! i \<in> set (take (Suc i) ps)"
    using assms(2) by (simp add: take_Suc_conv_app_nth)
  moreover have "\<forall>x\<in>set (take (Suc i) ps). x \<le> ps ! i"
  proof
    fix x assume "x \<in> set (take (Suc i) ps)"
    then obtain j where j: "j < length (take (Suc i) ps)" "x = take (Suc i) ps ! j"
      by (auto simp: in_set_conv_nth)
    then have "j \<le> i" "x = ps ! j" using assms(2) by simp_all
    then show "x \<le> ps ! i" using assms by (simp add: sorted_nth_mono)
  qed
  ultimately show ?thesis
    unfolding running_peak_def by (intro Max_eqI) simp_all
qed

lemma CalculateMaxDrawdown_sorted:
  assumes "sorted (GetClosePrices bts)"
  shows "CalculateMaxDrawdown bts = 0"
proof (cases "Data bts = []")
  case True
  then show ?thesis by (simp add: CalculateMaxDrawdown_def GetClosePrices_def)
next
  case False
  define ps where "ps = GetClosePrices bts"
  have ne: "ps \<noteq> []" using False by (simp add: ps_def GetClosePrices_def)
  have "\<forall>i<length ps. drawdown_at ps i = 0"
    using assms by (simp add: drawdown_at_def running_peak_sorted ps_def)
  then have "drawdown_at ps ` {..<length ps} = {0}" using ne by auto
  then have "spec_maxDrawdown ps = 0" by (simp add: spec_maxDrawdown_def)
  then show ?thesis using CalculateMaxDrawdown_refines[OF False] by (simp add: ps_def)
qed

text \<open>
  Claim C7 (\<^verbatim>\<open>CalculateMaxDrawdown\<close>). On a series of strictly positive closes the
  function returns the maximum over all bars of \<open>(running peak - price) / running peak\<close>
  (\<open>spec_maxDrawdown\<close>, for a series with at least one bar); the value is never
  negative, it is 0 on the empty series and 0 on every series whose closes never fall.
\<close>

theorem CalculateMaxDrawdown_spec:
  "(\<forall>p\<in>set (GetClosePrices bts). 0 < p) \<longrightarrow>
     (Data bts \<noteq> [] \<longrightarrow> CalculateMaxDrawdown bts = spec_maxDrawdown (GetClosePrices bts)) \<and>
     0 \<le> CalculateMaxDrawdown bts \<and>
     (Data bts = [] \<longrightarrow> CalculateMaxDrawdown bts = 0) \<and>
     (sorted (GetClosePrices bts) \<longrightarrow> CalculateMaxDrawdown bts = 0)"
  using CalculateMaxDrawdown_refines CalculateMaxDrawdown_nonneg CalculateMaxDrawdown_sorted
  by (simp add: CalculateMaxDrawdown_def GetClosePrices_def)

theorem CalculateMaxDrawdown_spec_witness:
  "CalculateMaxDrawdown (series [bar 0 100, bar 1 50, bar 2 75])
     = spec_maxDrawdown (GetClosePrices (series [bar 0 100, bar 1 50, bar 2 75])) \<and>
   CalculateMaxDrawdown (series [bar 0 100, bar 1 50, bar 2 75]) = 1 / 2 \<and>
   CalculateMaxDrawdown (series [bar 0 100, bar 1 100, bar 2 120]) = 0 \<and>
   CalculateMaxDrawdown (series []) = 0"
proof -
  define s where "s = series [bar 0 100, bar 1 50, bar 2 75]"
  define u where "u = series [bar 0 100, bar 1 100, bar 2 120]"
  have 1: "\<forall>p\<in>set (GetClosePrices s). 0 < p" "Data s \<noteq> []"
    by (simp_all add: s_def GetClosePrices_def series_def bar_def)
  have 2: "\<forall>p\<in>set (GetClosePrices u). 0 < p" "sorted (GetClosePrices u)"
    by (simp_all add: u_def GetClosePrices_def series_def bar_def)
  have 3: "\<forall>p\<in>set (GetClosePrices (series [])). 0 < p" "Data (series []) = []"
    by (simp_all add: GetClosePrices_def series_def)
  have a: "CalculateMaxDrawdown s = spec_maxDrawdown (GetClosePrices s)"
    using CalculateMaxDrawdown_spec[of s] 1 by blast
  have b: "CalculateMaxDrawdown s = 1 / 2"
    by (simp add: s_def CalculateMaxDrawdown_def drawdown_step_def GetClosePrices_def
          series_def bar_def Let_def)
  have c: "CalculateMaxDrawdown u = 0"
    using CalculateMaxDrawdown_spec[of u] 2 by blast
  have d: "CalculateMaxDrawdown (series []) = 0"
    using CalculateMaxDrawdown_spec[of "series []"] 3 by blast
  show ?thesis using a b c d unfolding s_def u_def by simp
qed

section \<open>Properties of GetRiskMetrics\<close>
















end
